theory Spec2Isabelle
  imports Complex_Main "HOL-Library.Log_Nat" "HOL-Library.Code_Target_Nat"
begin

section \<open>JavaScript numbers\<close>

text \<open>
  The listener computes with JavaScript Numbers: IEEE 754 binary64 values. A finite
  Number is modelled by the rational it denotes; the two zeros are one value, which no
  operation of the program tells apart (it never divides by a zero and prints both as 0).
\<close>

datatype jsnum = NaN | Infinity | NegInfinity | Finite rat

text \<open>Round to the nearest integer, ties to the even one.\<close>

definition rne :: "rat \<Rightarrow> int" where
  "rne q = (let f = \<lfloor>q\<rfloor>; r = q - of_int f in
     if r < 1 / 2 then f else if 1 / 2 < r then f + 1 else if even f then f else f + 1)"

text \<open>\<open>ilog b q\<close> is the integer \<open>e\<close> with \<open>b ^ e \<le> q < b ^ (e + 1)\<close>, for \<open>0 < q\<close>.\<close>

definition ilog :: "nat \<Rightarrow> rat \<Rightarrow> int" where
  "ilog b q = (let e = int (floorlog b (nat (fst (quotient_of q)))) -
                       int (floorlog b (nat (snd (quotient_of q))))
     in if of_nat b powi e \<le> q then e else e - 1)"

text \<open>
  The exponent of the unit in the last place of the binary64 value nearest to \<open>a\<close>
  (53 significant bits; subnormal below \<open>2 ^ -1022\<close>).
\<close>

definition ulp_exp :: "rat \<Rightarrow> int" where
  "ulp_exp a = max (ilog 2 a) (- 1022) - 52"

text \<open>The Number value for a rational: round to nearest, ties to even, overflow to infinity.\<close>

definition to_double :: "rat \<Rightarrow> jsnum" where
  "to_double q = (if q = 0 then Finite 0 else
     let a = \<bar>q\<bar>; p = ulp_exp a; v = of_int (rne (a / 2 powi p)) * 2 powi p in
     if 2 ^ 1024 \<le> v then (if 0 < q then Infinity else NegInfinity)
     else Finite (if 0 < q then v else - v))"

fun js_neg :: "jsnum \<Rightarrow> jsnum" where
  "js_neg NaN = NaN"
| "js_neg Infinity = NegInfinity"
| "js_neg NegInfinity = Infinity"
| "js_neg (Finite q) = Finite (- q)"

text \<open>The operators \<open>+\<close>, \<open>*\<close> and \<open>/\<close> on Numbers.\<close>

fun js_add :: "jsnum \<Rightarrow> jsnum \<Rightarrow> jsnum" where
  "js_add (Finite a) (Finite b) = to_double (a + b)"
| "js_add NaN y = NaN"
| "js_add x NaN = NaN"
| "js_add Infinity NegInfinity = NaN"
| "js_add NegInfinity Infinity = NaN"
| "js_add Infinity y = Infinity"
| "js_add NegInfinity y = NegInfinity"
| "js_add (Finite a) y = y"

fun js_sign :: "jsnum \<Rightarrow> int" where
  "js_sign (Finite q) = (if q < 0 then - 1 else 1)"
| "js_sign NegInfinity = - 1"
| "js_sign x = 1"

definition js_inf :: "int \<Rightarrow> jsnum" where
  "js_inf s = (if s < 0 then NegInfinity else Infinity)"

fun js_mul :: "jsnum \<Rightarrow> jsnum \<Rightarrow> jsnum" where
  "js_mul (Finite a) (Finite b) = to_double (a * b)"
| "js_mul NaN y = NaN"
| "js_mul x NaN = NaN"
| "js_mul x y = (if x = Finite 0 \<or> y = Finite 0 then NaN else js_inf (js_sign x * js_sign y))"

fun js_div :: "jsnum \<Rightarrow> jsnum \<Rightarrow> jsnum" where
  "js_div (Finite a) (Finite b) =
     (if b = 0 then (if a = 0 then NaN else js_inf (js_sign (Finite a))) else to_double (a / b))"
| "js_div NaN y = NaN"
| "js_div x NaN = NaN"
| "js_div (Finite a) y = Finite 0"
| "js_div x (Finite b) = js_inf (js_sign x * js_sign (Finite b))"
| "js_div x y = NaN"

text \<open>\<open>x || 0\<close> on a Number: NaN and zero are falsy.\<close>

definition or_zero :: "jsnum \<Rightarrow> jsnum" where
  "or_zero x = (if x = NaN \<or> x = Finite 0 then Finite 0 else x)"

section \<open>Decimal strings\<close>

definition is_digit :: "char \<Rightarrow> bool" where
  "is_digit c = (48 \<le> (of_char c :: nat) \<and> (of_char c :: nat) \<le> 57)"

definition digit_val :: "char \<Rightarrow> nat" where
  "digit_val c = of_char c - 48"

definition digit_char :: "nat \<Rightarrow> char" where
  "digit_char d = char_of (48 + d)"

text \<open>The decimal digits of a natural number, as \<open>BigNumber.toString()\<close> prints it.\<close>

fun decimal :: "nat \<Rightarrow> string" where
  "decimal n = (if n < 10 then [digit_char n] else decimal (n div 10) @ [digit_char (n mod 10)])"

declare decimal.simps [simp del]

definition digits_val :: "string \<Rightarrow> nat" where
  "digits_val ds = foldl (\<lambda>acc c. 10 * acc + digit_val c) 0 ds"

definition zeros :: "nat \<Rightarrow> string" where
  "zeros n = replicate n (CHR ''0'')"

text \<open>
  \<open>ethers.utils.formatEther\<close> (ethers v5, \<open>formatFixed(value, 18)\<close>) on a non-negative
  BigNumber: the whole part, a point, and the 18-digit fraction with its trailing zeros
  stripped down to at least one digit.
\<close>

definition strip_fraction :: "string \<Rightarrow> string" where
  "strip_fraction fr = (let s = rev (dropWhile (\<lambda>c. c = CHR ''0'') (rev fr)) in
     if s = [] then ''0'' else s)"

definition formatEther :: "nat \<Rightarrow> string" where
  "formatEther v = (let fraction = decimal (v mod 10 ^ 18);
       padded = zeros (18 - length fraction) @ fraction
     in decimal (v div 10 ^ 18) @ ''.'' @ strip_fraction padded)"

subsection \<open>String to Number\<close>

text \<open>
  \<open>Number(s)\<close> on a string follows the StringNumericLiteral grammar of ECMAScript:
  optional white space around an optionally signed decimal literal (with \<open>Infinity\<close>,
  a fraction and an exponent part) or an unsigned binary, octal or hexadecimal integer;
  the empty string is 0 and everything else is NaN. The literal's value is rounded
  to the nearest Number. Strings are byte strings here, so white space is the ASCII
  white space.
\<close>

definition is_space :: "char \<Rightarrow> bool" where
  "is_space c = ((of_char c :: nat) \<in> {9, 10, 11, 12, 13, 32})"

definition trim :: "string \<Rightarrow> string" where
  "trim s = rev (dropWhile is_space (rev (dropWhile is_space s)))"

definition all_digits :: "string \<Rightarrow> bool" where
  "all_digits s = (s \<noteq> [] \<and> list_all is_digit s)"

definition SignedInteger :: "string \<Rightarrow> int option" where
  "SignedInteger s = (case s of
       c # ds \<Rightarrow>
         if c = CHR ''+'' then (if all_digits ds then Some (int (digits_val ds)) else None)
         else if c = CHR ''-'' then (if all_digits ds then Some (- int (digits_val ds)) else None)
         else (if all_digits s then Some (int (digits_val s)) else None)
     | [] \<Rightarrow> None)"

definition ExponentPart :: "string \<Rightarrow> int option" where
  "ExponentPart s = (case s of
       [] \<Rightarrow> Some 0
     | c # r \<Rightarrow> if c = CHR ''e'' \<or> c = CHR ''E'' then SignedInteger r else None)"

definition StrUnsignedDecimalLiteral :: "string \<Rightarrow> rat option" where
  "StrUnsignedDecimalLiteral s = (let ip = takeWhile is_digit s; r1 = dropWhile is_digit s;
       fp = (case r1 of c # r \<Rightarrow> if c = CHR ''.'' then takeWhile is_digit r else [] | [] \<Rightarrow> []);
       r2 = (case r1 of c # r \<Rightarrow> if c = CHR ''.'' then dropWhile is_digit r else r1 | [] \<Rightarrow> [])
     in if ip = [] \<and> fp = [] then None
        else (case ExponentPart r2 of
            None \<Rightarrow> None
          | Some ex \<Rightarrow> Some (of_nat (digits_val (ip @ fp)) * 10 powi (ex - int (length fp)))))"

definition StrDecimalLiteral :: "string \<Rightarrow> jsnum" where
  "StrDecimalLiteral s = (let neg = (s \<noteq> [] \<and> hd s = CHR ''-'');
       u = (if s \<noteq> [] \<and> (hd s = CHR ''+'' \<or> hd s = CHR ''-'') then tl s else s)
     in if u = ''Infinity'' then (if neg then NegInfinity else Infinity)
        else (case StrUnsignedDecimalLiteral u of
            None \<Rightarrow> NaN
          | Some q \<Rightarrow> to_double (if neg then - q else q)))"

definition radix_digit :: "char \<Rightarrow> nat option" where
  "radix_digit c = (let n = (of_char c :: nat) in
     if 48 \<le> n \<and> n \<le> 57 then Some (n - 48)
     else if 97 \<le> n \<and> n \<le> 102 then Some (n - 87)
     else if 65 \<le> n \<and> n \<le> 70 then Some (n - 55)
     else None)"

definition NonDecimalIntegerLiteral :: "nat \<Rightarrow> string \<Rightarrow> jsnum" where
  "NonDecimalIntegerLiteral b ds =
     (if ds \<noteq> [] \<and> list_all (\<lambda>c. case radix_digit c of None \<Rightarrow> False | Some d \<Rightarrow> d < b) ds
      then to_double (of_nat (foldl (\<lambda>acc c. b * acc + the (radix_digit c)) 0 ds))
      else NaN)"

definition StringToNumber :: "string \<Rightarrow> jsnum" where
  "StringToNumber s = (let t = trim s in
     if t = [] then Finite 0
     else if take 2 t = ''0x'' \<or> take 2 t = ''0X'' then NonDecimalIntegerLiteral 16 (drop 2 t)
     else if take 2 t = ''0o'' \<or> take 2 t = ''0O'' then NonDecimalIntegerLiteral 8 (drop 2 t)
     else if take 2 t = ''0b'' \<or> take 2 t = ''0B'' then NonDecimalIntegerLiteral 2 (drop 2 t)
     else StrDecimalLiteral t)"

subsection \<open>Number to string\<close>

text \<open>
  \<open>Number.prototype.toString\<close>: the shortest decimal digit string \<open>s\<close> (of \<open>k\<close> digits)
  and exponent \<open>n\<close> with \<open>s * 10 ^ (n - k)\<close> rounding to the Number, the closest one
  when several of that length do. Seventeen digits always tell a binary64 value
  apart, so the search stops there; \<open>exact_digits\<close>, the full decimal expansion of the
  binary value, stands behind it and keeps the function total without that fact.
\<close>

fun strip10 :: "nat \<Rightarrow> int \<Rightarrow> nat \<times> int" where
  "strip10 s e = (if s \<noteq> 0 \<and> s mod 10 = 0 then strip10 (s div 10) (e + 1) else (s, e))"

declare strip10.simps [simp del]

definition exact_digits :: "rat \<Rightarrow> nat \<times> int" where
  "exact_digits x = (let p = ulp_exp x; m = nat (rne (x / 2 powi p)) in
     if 0 \<le> p then (m * 2 ^ nat p, 0) else (m * 5 ^ nat (- p), p))"

definition candidates :: "rat \<Rightarrow> nat \<Rightarrow> (nat \<times> int) list" where
  "candidates x k = (let e = ilog 10 x + 1 - int k; lo = nat \<lfloor>x / 10 powi e\<rfloor>;
       ok_lo = (to_double (of_nat lo * 10 powi e) = Finite x);
       ok_hi = (to_double (of_nat (lo + 1) * 10 powi e) = Finite x);
       down = x - of_nat lo * 10 powi e; up = of_nat (lo + 1) * 10 powi e - x
     in if ok_lo \<and> ok_hi then
          (if down < up \<or> (down = up \<and> even lo) then [(lo, e)] else [(lo + 1, e)])
        else if ok_lo then [(lo, e)]
        else if ok_hi then [(lo + 1, e)]
        else [])"

definition shortest_digits :: "rat \<Rightarrow> nat \<times> int" where
  "shortest_digits x =
     (case List.find (\<lambda>k. candidates x k \<noteq> []) [1 ..< 18] of
        Some k \<Rightarrow> hd (candidates x k)
      | None \<Rightarrow> exact_digits x)"

definition format_digits :: "nat \<times> int \<Rightarrow> string" where
  "format_digits se = (let (s, e) = strip10 (fst se) (snd se); ds = decimal s;
       k = int (length ds); n = e + k
     in if k \<le> n \<and> n \<le> 21 then ds @ zeros (nat (n - k))
        else if 0 < n \<and> n \<le> 21 then take (nat n) ds @ ''.'' @ drop (nat n) ds
        else if - 6 < n \<and> n \<le> 0 then ''0.'' @ zeros (nat (- n)) @ ds
        else (if k = 1 then ds else take 1 ds @ ''.'' @ drop 1 ds) @ ''e''
          @ (if 0 \<le> n - 1 then ''+'' else ''-'') @ decimal (nat \<bar>n - 1\<bar>))"

fun num_toString :: "jsnum \<Rightarrow> string" where
  "num_toString NaN = ''NaN''"
| "num_toString Infinity = ''Infinity''"
| "num_toString NegInfinity = ''-Infinity''"
| "num_toString (Finite q) =
     (if q = 0 then ''0''
      else if q < 0 then ''-'' @ format_digits (shortest_digits (- q))
      else format_digits (shortest_digits q))"

text \<open>
  \<open>Number.prototype.toFixed(f)\<close>: below \<open>10 ^ 21\<close> the integer \<open>n\<close> nearest to
  \<open>x * 10 ^ f\<close> (the larger of two), printed with \<open>f\<close> fraction digits; from \<open>10 ^ 21\<close> on,
  and for NaN and the infinities, what \<open>toString\<close> prints.
\<close>

definition toFixed :: "nat \<Rightarrow> jsnum \<Rightarrow> string" where
  "toFixed f x = (case x of
       Finite q \<Rightarrow>
         (let a = \<bar>q\<bar>; s = (if q < 0 then ''-'' else '''') in
          if 10 ^ 21 \<le> a then s @ num_toString (Finite a)
          else
            let n = nat \<lfloor>a * 10 ^ f + 1 / 2\<rfloor>; m = decimal n;
                m = (if f \<noteq> 0 then
                       let m = (if length m \<le> f then zeros (f + 1 - length m) @ m else m);
                           k = length m
                       in take (k - f) m @ ''.'' @ drop (k - f) m
                     else m)
            in s @ m)
     | _ \<Rightarrow> num_toString x)"

section \<open>Values, strings and the console\<close>

text \<open>
  The amounts handed between the functions are JavaScript numbers or strings.
  \<open>Number(v)\<close> and \<open>v.toString()\<close>:
\<close>

datatype jsval = JNum jsnum | JStr string

fun Number :: "jsval \<Rightarrow> jsnum" where
  "Number (JNum n) = n"
| "Number (JStr s) = StringToNumber s"

fun toString :: "jsval \<Rightarrow> string" where
  "toString (JNum n) = num_toString n"
| "toString (JStr s) = s"

text \<open>\<open>s || 0\<close> on a stored string: only the empty string is falsy.\<close>

definition str_or_zero :: "string \<Rightarrow> jsval" where
  "str_or_zero s = (if s = [] then JNum (Finite 0) else JStr s)"

text \<open>
  \<open>String.prototype.toLowerCase\<close> on the ASCII letters; an address is \<open>0x\<close> and
  hexadecimal digits.
\<close>

definition toLower_char :: "char \<Rightarrow> char" where
  "toLower_char c = (let n = (of_char c :: nat) in if 65 \<le> n \<and> n \<le> 90 then char_of (n + 32) else c)"

definition toLowerCase :: "string \<Rightarrow> string" where
  "toLowerCase s = map toLower_char s"

text \<open>
  A Date is its time value in milliseconds (NaN for an invalid Date);
  \<open>new Date(t)\<close> clips the time value.
\<close>

type_synonym date = jsnum

definition new_Date :: "jsnum \<Rightarrow> date" where
  "new_Date t = (case t of
       Finite q \<Rightarrow> if 8640000000000000 < \<bar>q\<bar> then NaN
                   else Finite (of_int (if 0 \<le> q then \<lfloor>q\<rfloor> else \<lceil>q\<rceil>))
     | _ \<Rightarrow> NaN)"

datatype error = Error (message: string)

text \<open>
  What \<open>console.log\<close> and \<open>console.error\<close> are given: the arguments as values,
  \<open>AJson e\<close> for the text \<open>JSON.stringify(e, null, 2)\<close>.
\<close>

datatype arg = AStr string | ANum jsnum | ADate date | AErr error | AJson error | AObj "(string \<times> arg) list"

datatype line = Log "arg list" | Err "arg list"

section \<open>The tables and the backend\<close>

record user_transaction =
  address :: string
  transaction_hash :: string
  chain_name :: string
  event_name :: string
  payment_type :: string
  deposit_amount :: string
  token_amount :: string
  block_number :: nat
  block_timestamp :: date

record user_deposit =
  address :: string
  total_native_deposit :: string
  total_usdt_deposit :: string
  total_token_amount :: string
  last_updated :: nat

text \<open>
  A backend request resolves to \<open>{data, error}\<close> with \<open>error\<close> null (\<open>Succeeds\<close>)
  or set (\<open>Fails\<close>), or its promise rejects (\<open>Rejects\<close>). The world holds the two
  tables, the answers the backend gives to the coming requests in order (past the end
  of the list every request succeeds), the console, the delays waited with
  \<open>setTimeout\<close>, the clock in milliseconds, the contract listeners registered with
  \<open>contract.on\<close>, and the exit code once the process has exited.
\<close>

datatype outcome = Succeeds | Fails error | Rejects error

datatype 'a response = Response (data: "'a option") (error: "error option")

record world =
  user_transactions :: "user_transaction list"
  user_deposits :: "string \<Rightarrow> user_deposit option"
  backend :: "outcome list"
  console :: "line list"
  timeouts :: "nat list"
  clock :: nat
  listeners :: "(string \<times> string) list"
  exitCode :: "int option"

definition console_log :: "arg list \<Rightarrow> world \<Rightarrow> world" where
  "console_log args w = w\<lparr>console := console w @ [Log args]\<rparr>"

definition console_error :: "arg list \<Rightarrow> world \<Rightarrow> world" where
  "console_error args w = w\<lparr>console := console w @ [Err args]\<rparr>"

text \<open>\<open>await new Promise(resolve => setTimeout(resolve, ms))\<close>\<close>

definition setTimeout :: "nat \<Rightarrow> world \<Rightarrow> world" where
  "setTimeout ms w = w\<lparr>timeouts := timeouts w @ [ms], clock := clock w + ms\<rparr>"

definition request :: "world \<Rightarrow> outcome \<times> world" where
  "request w = (case backend w of [] \<Rightarrow> (Succeeds, w) | a # as \<Rightarrow> (a, w\<lparr>backend := as\<rparr>))"

text \<open>\<open>supabase.from('user_transactions').insert([row])\<close>\<close>

definition insert_row :: "user_transaction \<Rightarrow> world \<Rightarrow> (error + unit response) \<times> world" where
  "insert_row row w = (case request w of
       (Succeeds, w') \<Rightarrow>
         (Inr (Response None None), w'\<lparr>user_transactions := user_transactions w' @ [row]\<rparr>)
     | (Fails e, w') \<Rightarrow> (Inr (Response None (Some e)), w')
     | (Rejects e, w') \<Rightarrow> (Inl e, w'))"

text \<open>
  \<open>supabase.from('user_deposits').select('*').eq('address', a).single()\<close>: with no
  matching row, \<open>single\<close> answers with null data and an error.
\<close>

definition no_rows :: error where
  "no_rows = Error ''JSON object requested, multiple (or no) rows returned''"

definition select_single :: "string \<Rightarrow> world \<Rightarrow> (error + user_deposit response) \<times> world" where
  "select_single a w = (case request w of
       (Succeeds, w') \<Rightarrow>
         (case user_deposits w' a of
            Some row \<Rightarrow> (Inr (Response (Some row) None), w')
          | None \<Rightarrow> (Inr (Response None (Some no_rows)), w'))
     | (Fails e, w') \<Rightarrow> (Inr (Response None (Some e)), w')
     | (Rejects e, w') \<Rightarrow> (Inl e, w'))"

text \<open>\<open>supabase.from('user_deposits').upsert(row, { onConflict: 'address' })\<close>\<close>

definition upsert :: "user_deposit \<Rightarrow> world \<Rightarrow> (error + unit response) \<times> world" where
  "upsert row w = (case request w of
       (Succeeds, w') \<Rightarrow>
         (Inr (Response None None),
          w'\<lparr>user_deposits := (user_deposits w')(user_deposit.address row \<mapsto> row)\<rparr>)
     | (Fails e, w') \<Rightarrow> (Inr (Response None (Some e)), w')
     | (Rejects e, w') \<Rightarrow> (Inl e, w'))"

section \<open>The listener\<close>

subsection \<open>\<open>logTransactionToSupabase\<close>\<close>

text \<open>
  One pass of the \<open>try\<close> block inside the retry loop: the insert, and
  \<open>if (error) throw error\<close>.
\<close>

definition try_insert :: "user_transaction \<Rightarrow> world \<Rightarrow> (error + unit) \<times> world" where
  "try_insert row w = (case insert_row row w of
       (Inl err, w') \<Rightarrow> (Inl err, w')
     | (Inr r, w') \<Rightarrow> (case error r of Some err \<Rightarrow> (Inl err, w') | None \<Rightarrow> (Inr (), w')))"

text \<open>
  \<open>while (retries > 0)\<close>: a successful pass logs and breaks; a failed one decrements
  \<open>retries\<close>, rethrows when none is left and otherwise waits a second.
\<close>

fun retry_loop :: "nat \<Rightarrow> string \<Rightarrow> string \<Rightarrow> user_transaction \<Rightarrow> world \<Rightarrow> (error + unit) \<times> world" where
  "retry_loop retries eventName user row w =
     (if 0 < retries then
        (case try_insert row w of
           (Inr u, w') \<Rightarrow>
             (Inr (), console_log
                [AStr (''Transaction logged: '' @ eventName @ '' for user '' @ toLowerCase user)] w')
         | (Inl err, w') \<Rightarrow>
             if retries - 1 = 0 then (Inl err, w')
             else retry_loop (retries - 1) eventName user row (setTimeout 1000 w'))
      else (Inr (), w))"

declare retry_loop.simps [simp del]

definition logTransactionToSupabase ::
  "string \<Rightarrow> string \<Rightarrow> jsval \<Rightarrow> jsval \<Rightarrow> string \<Rightarrow> string \<Rightarrow> nat \<Rightarrow> date \<Rightarrow> string \<Rightarrow> world
    \<Rightarrow> (error + unit) \<times> world" where
  "logTransactionToSupabase eventName user tokenDeposit amount paymentType transactionHash
      blockNumber blockTimestamp chainName w =
     (let w0 = console_log [AStr ''EVENTS LOGS:'', AStr eventName, AStr user, AStr (toString tokenDeposit),
                  AStr (toString amount), AStr paymentType, AStr transactionHash,
                  ANum (Finite (of_nat blockNumber)), ADate blockTimestamp, AStr chainName] w
      in case retry_loop 3 eventName user
           \<lparr>user_transaction.address = toLowerCase user,
            transaction_hash = transactionHash,
            chain_name = chainName,
            event_name = eventName,
            payment_type = paymentType,
            deposit_amount = toString tokenDeposit,
            token_amount = toString amount,
            block_number = blockNumber,
            block_timestamp = blockTimestamp\<rparr> w0 of
           (Inl err, w') \<Rightarrow>
             (Inr (), console_error [AStr (''Error logging transaction: '' @ message err)] w')
         | (Inr u, w') \<Rightarrow> (Inr (), w'))"

subsection \<open>\<open>updateUserDeposit\<close>\<close>

text \<open>
  The row written when the read gave a row (\<open>Some existingDeposit\<close>) and when it gave
  none; the three amounts are already Numbers.
\<close>

definition newData ::
  "user_deposit option \<Rightarrow> string \<Rightarrow> jsnum \<Rightarrow> jsnum \<Rightarrow> jsnum \<Rightarrow> string \<Rightarrow> nat \<Rightarrow> user_deposit" where
  "newData existing lowerAddress depositAmount tokenAmount usdtAmount paymentType now =
     (case existing of
        Some existingDeposit \<Rightarrow>
          \<lparr>user_deposit.address = lowerAddress,
           total_native_deposit = num_toString
             (js_add (Number (str_or_zero (total_native_deposit existingDeposit)))
                (if paymentType = ''native'' then depositAmount else Finite 0)),
           total_usdt_deposit = num_toString
             (js_add (Number (str_or_zero (total_usdt_deposit existingDeposit)))
                (if paymentType = ''usdt'' then usdtAmount else Finite 0)),
           total_token_amount = num_toString
             (js_add (Number (str_or_zero (total_token_amount existingDeposit))) tokenAmount),
           last_updated = now\<rparr>
      | None \<Rightarrow>
          \<lparr>user_deposit.address = lowerAddress,
           total_native_deposit =
             (if paymentType = ''native'' then num_toString depositAmount else ''0''),
           total_usdt_deposit =
             (if paymentType = ''usdt'' then num_toString usdtAmount else ''0''),
           total_token_amount = num_toString tokenAmount,
           last_updated = now\<rparr>)"

text \<open>The \<open>try\<close> block after the three conversions: the read, the row, the upsert.\<close>

definition try_update ::
  "string \<Rightarrow> jsnum \<Rightarrow> jsnum \<Rightarrow> jsnum \<Rightarrow> string \<Rightarrow> world \<Rightarrow> (error + unit) \<times> world" where
  "try_update lowerAddress depositAmount tokenAmount usdtAmount paymentType w =
     (case select_single lowerAddress w of
        (Inl err, w1) \<Rightarrow> (Inl err, w1)
      | (Inr r, w1) \<Rightarrow>
          (case upsert (newData (data r) lowerAddress depositAmount tokenAmount usdtAmount
                          paymentType (clock w1)) w1 of
             (Inl err, w2) \<Rightarrow> (Inl err, w2)
           | (Inr r2, w2) \<Rightarrow>
               (case error r2 of
                  Some err \<Rightarrow> (Inl err, w2)
                | None \<Rightarrow>
                    (Inr (), console_log [AStr (''User deposit updated for '' @ lowerAddress)] w2))))"

definition updateUserDeposit ::
  "string \<Rightarrow> jsval \<Rightarrow> jsval \<Rightarrow> jsval \<Rightarrow> string \<Rightarrow> world \<Rightarrow> (error + unit) \<times> world" where
  "updateUserDeposit addr depositAmount tokenAmount usdtAmount paymentType w =
     (let depositAmount = or_zero (Number depositAmount);
          tokenAmount = or_zero (Number tokenAmount);
          usdtAmount = or_zero (Number usdtAmount);
          lowerAddress = toLowerCase addr
      in case try_update lowerAddress depositAmount tokenAmount usdtAmount paymentType w of
           (Inl err, w') \<Rightarrow>
             (Inr (), console_error [AStr ''Full error:'', AJson err]
                        (console_error [AStr ''Error updating user deposit:'', AErr err] w'))
         | (Inr u, w') \<Rightarrow> (Inr (), w'))"

subsection \<open>The earlier revision of the two helpers (src/a.js)\<close>

text \<open>
  \<open>src/a.js\<close> holds an earlier revision of the same listener. Its ledger writer makes
  one attempt and stores the user as given; its aggregator returns when the read
  answers with an error and adds with the operator \<open>+=\<close> on whatever the row and the
  argument hold.
\<close>

definition logTransactionToSupabase_a ::
  "string \<Rightarrow> string \<Rightarrow> jsval \<Rightarrow> jsval \<Rightarrow> string \<Rightarrow> string \<Rightarrow> nat \<Rightarrow> date \<Rightarrow> string \<Rightarrow> world
    \<Rightarrow> (error + unit) \<times> world" where
  "logTransactionToSupabase_a eventName user tokenDeposit amount paymentType transactionHash
      blockNumber blockTimestamp chainName w =
     (let w0 = console_log [AStr ''EVENTS LOGS:'', AStr eventName, AStr user, AStr (toString tokenDeposit),
                  AStr (toString amount), AStr paymentType, AStr transactionHash,
                  ANum (Finite (of_nat blockNumber)), ADate blockTimestamp, AStr chainName] w
      in case try_insert
           \<lparr>user_transaction.address = user,
            transaction_hash = transactionHash,
            chain_name = chainName,
            event_name = eventName,
            payment_type = paymentType,
            deposit_amount = toString tokenDeposit,
            token_amount = toString amount,
            block_number = blockNumber,
            block_timestamp = blockTimestamp\<rparr> w0 of
           (Inl err, w') \<Rightarrow>
             (Inr (), console_error [AStr (''Error logging transaction: '' @ message err)] w')
         | (Inr u, w') \<Rightarrow>
             (Inr (), console_log
                [AStr (''Transaction logged: '' @ eventName @ '' for user '' @ user)] w'))"

text \<open>The operator \<open>+\<close> on values: addition of two numbers, concatenation otherwise.\<close>

fun js_plus :: "jsval \<Rightarrow> jsval \<Rightarrow> jsval" where
  "js_plus (JNum a) (JNum b) = JNum (js_add a b)"
| "js_plus a b = JStr (toString a @ toString b)"

definition updateUserDeposit_a ::
  "string \<Rightarrow> jsval \<Rightarrow> jsval \<Rightarrow> jsval \<Rightarrow> string \<Rightarrow> world \<Rightarrow> (error + unit) \<times> world" where
  "updateUserDeposit_a addr depositAmount tokenAmount usdtAmount paymentType w =
     (case
        (case select_single addr w of
           (Inl err, w1) \<Rightarrow> (Inl err, w1)
         | (Inr r, w1) \<Rightarrow>
             (case error r of
                Some e \<Rightarrow>
                  (Inr (), console_error [AStr ''Error fetching user deposit:'', AStr (message e)] w1)
              | None \<Rightarrow>
                  (let totalNativeDeposit =
                         (case data r of Some existingDeposit \<Rightarrow> str_or_zero (total_native_deposit existingDeposit)
                          | None \<Rightarrow> JNum (Finite 0));
                       totalUsdtDeposit =
                         (case data r of Some existingDeposit \<Rightarrow> str_or_zero (total_usdt_deposit existingDeposit)
                          | None \<Rightarrow> JNum (Finite 0));
                       totalTokenAmount =
                         (case data r of Some existingDeposit \<Rightarrow> str_or_zero (total_token_amount existingDeposit)
                          | None \<Rightarrow> JNum (Finite 0));
                       totalNativeDeposit =
                         (if paymentType = ''native'' then js_plus totalNativeDeposit depositAmount
                          else totalNativeDeposit);
                       totalUsdtDeposit =
                         (if paymentType \<noteq> ''native'' \<and> paymentType = ''usdt''
                          then js_plus totalUsdtDeposit usdtAmount else totalUsdtDeposit);
                       totalTokenAmount =
                         (if paymentType \<noteq> ''native'' \<and> paymentType \<noteq> ''usdt'' \<and> paymentType = ''token''
                          then js_plus totalTokenAmount tokenAmount else totalTokenAmount)
                   in case upsert
                        \<lparr>user_deposit.address = addr,
                         total_native_deposit = toString totalNativeDeposit,
                         total_usdt_deposit = toString totalUsdtDeposit,
                         total_token_amount = toString totalTokenAmount,
                         last_updated = clock w1\<rparr> w1 of
                        (Inl err, w2) \<Rightarrow> (Inl err, w2)
                      | (Inr r2, w2) \<Rightarrow>
                          (case error r2 of
                             Some err \<Rightarrow> (Inl err, w2)
                           | None \<Rightarrow>
                               (Inr (), console_log [AStr (''User deposit updated for '' @ addr)] w2)))))
      of
        (Inl err, w') \<Rightarrow>
          (Inr (), console_error [AStr ''Error updating user deposit:'', AStr (message err)] w')
      | (Inr u, w') \<Rightarrow> (Inr (), w'))"

subsection \<open>The event listeners of \<open>listenToContractEvents\<close>\<close>

record event =
  transactionHash :: string
  blockNumber :: nat

text \<open>
  \<open>timestamp * 1000\<close> on a BigNumber multiplies the Number read from its decimal string.
\<close>

definition blockTimestamp_of :: "nat \<Rightarrow> date" where
  "blockTimestamp_of timestamp = new_Date (js_mul (StringToNumber (decimal timestamp)) (Finite 1000))"

definition on_BoughtWithNative ::
  "string \<Rightarrow> string \<Rightarrow> nat \<Rightarrow> nat \<Rightarrow> nat \<Rightarrow> event \<Rightarrow> world \<Rightarrow> (error + unit) \<times> world" where
  "on_BoughtWithNative networkName user tokenDeposit amount timestamp event w =
     (let blockTimestamp = blockTimestamp_of timestamp;
          depositInEth = StringToNumber (formatEther tokenDeposit);
          amountInTokens = StringToNumber (formatEther amount);
          w0 = console_log [AStr (''['' @ networkName @ ''] BoughtWithNative event:''),
                 AObj [(''user'', AStr user), (''deposit'', ANum depositInEth), (''tokens'', ANum amountInTokens)]] w
      in case logTransactionToSupabase ''BoughtWithNative'' user
                (JStr (toFixed 6 depositInEth)) (JStr (toFixed 6 amountInTokens)) ''native''
                (transactionHash event) (blockNumber event) blockTimestamp networkName w0 of
           (Inl err, w1) \<Rightarrow> (Inl err, w1)
         | (Inr u, w1) \<Rightarrow>
             updateUserDeposit user (JStr (toFixed 6 depositInEth))
               (JStr (toFixed 6 amountInTokens)) (JNum (Finite 0)) ''native'' w1)"

definition on_BoughtWithUSDT ::
  "string \<Rightarrow> string \<Rightarrow> nat \<Rightarrow> nat \<Rightarrow> nat \<Rightarrow> event \<Rightarrow> world \<Rightarrow> (error + unit) \<times> world" where
  "on_BoughtWithUSDT networkName user tokenDeposit amount timestamp event w =
     (let blockTimestamp = blockTimestamp_of timestamp;
          amountInTokens = StringToNumber (formatEther amount);
          depositInUSDT =
            (if networkName = ''BSC'' then StringToNumber (formatEther tokenDeposit)
             else js_div (StringToNumber (decimal tokenDeposit)) (Finite (10 ^ 6)));
          w0 = console_log [AStr (''['' @ networkName @ ''] BoughtWithUSDT event:''),
                 AObj [(''user'', AStr user), (''deposit'', ANum depositInUSDT), (''tokens'', ANum amountInTokens)]] w
      in case logTransactionToSupabase ''BoughtWithUSDT'' user
                (JStr (toFixed 6 depositInUSDT)) (JStr (toFixed 6 amountInTokens)) ''usdt''
                (transactionHash event) (blockNumber event) blockTimestamp networkName w0 of
           (Inl err, w1) \<Rightarrow> (Inl err, w1)
         | (Inr u, w1) \<Rightarrow>
             updateUserDeposit user (JNum (Finite 0)) (JStr (toFixed 6 amountInTokens))
               (JStr (toFixed 6 depositInUSDT)) ''usdt'' w1)"

definition on_claimHistory ::
  "string \<Rightarrow> string \<Rightarrow> nat \<Rightarrow> nat \<Rightarrow> event \<Rightarrow> world \<Rightarrow> (error + unit) \<times> world" where
  "on_claimHistory networkName user amount timestamp event w =
     (let blockTimestamp = blockTimestamp_of timestamp;
          formattedAmount = toFixed 6 (StringToNumber (formatEther amount));
          w0 = console_log [AStr (''['' @ networkName @ ''] claimHistory event detected: '' @ user
                 @ '' claimed '' @ formattedAmount @ '' tokens'')] w
      in case logTransactionToSupabase ''claimHistory'' user (JStr ''0'') (JStr formattedAmount)
                ''claim'' (transactionHash event) (blockNumber event) blockTimestamp networkName w0 of
           (Inl err, w1) \<Rightarrow> (Inl err, w1)
         | (Inr u, w1) \<Rightarrow>
             updateUserDeposit user (JNum (Finite 0)) (JStr formattedAmount) (JNum (Finite 0))
               ''token'' w1)"

subsection \<open>Events in sequence\<close>

text \<open>
  The three events of the contract ABI with their decoded arguments: the user, the
  amounts and the timestamp, each \<open>uint256\<close> a natural number. The transport calls the
  listener registered for the event; serial processing runs each listener to its end
  before the next event is taken.
\<close>

datatype contract_event =
    BoughtWithNative string nat nat nat
  | BoughtWithUSDT string nat nat nat
  | claimHistory string nat nat

fun user_of :: "contract_event \<Rightarrow> string" where
  "user_of (BoughtWithNative user tokenDeposit amount timestamp) = user"
| "user_of (BoughtWithUSDT user tokenDeposit amount timestamp) = user"
| "user_of (claimHistory user amount timestamp) = user"

fun with_user :: "string \<Rightarrow> contract_event \<Rightarrow> contract_event" where
  "with_user u (BoughtWithNative user tokenDeposit amount timestamp) =
     BoughtWithNative u tokenDeposit amount timestamp"
| "with_user u (BoughtWithUSDT user tokenDeposit amount timestamp) =
     BoughtWithUSDT u tokenDeposit amount timestamp"
| "with_user u (claimHistory user amount timestamp) = claimHistory u amount timestamp"

fun dispatch :: "string \<Rightarrow> contract_event \<Rightarrow> event \<Rightarrow> world \<Rightarrow> (error + unit) \<times> world" where
  "dispatch networkName (BoughtWithNative user tokenDeposit amount timestamp) event w =
     on_BoughtWithNative networkName user tokenDeposit amount timestamp event w"
| "dispatch networkName (BoughtWithUSDT user tokenDeposit amount timestamp) event w =
     on_BoughtWithUSDT networkName user tokenDeposit amount timestamp event w"
| "dispatch networkName (claimHistory user amount timestamp) event w =
     on_claimHistory networkName user amount timestamp event w"

fun process_serially :: "(string \<times> contract_event \<times> event) list \<Rightarrow> world \<Rightarrow> world" where
  "process_serially [] w = w"
| "process_serially ((networkName, ev, event) # rest) w =
     process_serially rest (snd (dispatch networkName ev event w))"

text \<open>The world when the process starts: empty tables, a backend that answers every request.\<close>

definition start :: world where
  "start = \<lparr>user_transactions = [], user_deposits = Map.empty, backend = [], console = [],
     timeouts = [], clock = 0, listeners = [], exitCode = None\<rparr>"

text \<open>The error a backend answer carries, if it is a failure.\<close>

fun failed :: "outcome \<Rightarrow> error option" where
  "failed Succeeds = None"
| "failed (Fails e) = Some e"
| "failed (Rejects e) = Some e"

subsection \<open>Startup: \<open>listenToContractEvents\<close>, \<open>startListeners\<close> and the top level\<close>

text \<open>
  \<open>listenToContractEvents\<close> builds a provider and a contract with the ethers
  constructors and registers the three listeners. Whether the constructors throw for an
  endpoint and an address is the library's affair: \<open>connect\<close> gives the error they
  throw, if any. The function is \<open>async\<close> and awaits nothing, so a throw is the
  rejection of the promise it returns.
\<close>

definition listenToContractEvents ::
  "(string option \<Rightarrow> string option \<Rightarrow> error option) \<Rightarrow> string option \<Rightarrow> string option \<Rightarrow> string
    \<Rightarrow> world \<Rightarrow> (error + unit) \<times> world" where
  "listenToContractEvents connect rpcUrl contractAddress networkName w =
     (case connect rpcUrl contractAddress of
        Some err \<Rightarrow> (Inl err, w)
      | None \<Rightarrow>
          (Inr (), console_log [AStr (''['' @ networkName @ ''] Listening for events...'')]
             (w\<lparr>listeners := listeners w @
                [(networkName, ''BoughtWithNative''), (networkName, ''BoughtWithUSDT''),
                 (networkName, ''claimHistory'')]\<rparr>)))"

record network =
  name :: string
  rpcUrl :: "string option"
  contractAddress :: "string option"

text \<open>
  \<open>networks.map\<close> calls \<open>listenToContractEvents\<close> for every network in turn and
  collects the promises; \<open>Promise.all\<close> rejects with the first rejection among them.
\<close>

fun map_networks ::
  "(string option \<Rightarrow> string option \<Rightarrow> error option) \<Rightarrow> network list \<Rightarrow> world
    \<Rightarrow> (error + unit) list \<times> world" where
  "map_networks connect [] w = ([], w)"
| "map_networks connect (n # ns) w =
     (case listenToContractEvents connect (rpcUrl n) (contractAddress n) (name n) w of
        (r, w1) \<Rightarrow> (case map_networks connect ns w1 of (rs, w2) \<Rightarrow> (r # rs, w2)))"

definition Promise_all :: "(error + unit) list \<Rightarrow> error + unit" where
  "Promise_all rs = (case List.find isl rs of Some (Inl err) \<Rightarrow> Inl err | _ \<Rightarrow> Inr ())"

definition startListeners ::
  "(string option \<Rightarrow> string option \<Rightarrow> error option) \<Rightarrow> (string \<Rightarrow> string option) \<Rightarrow> world
    \<Rightarrow> (error + unit) \<times> world" where
  "startListeners connect env w =
     (let networks =
        [\<lparr>name = ''ETH'', rpcUrl = env ''ETH_RPC_URL'',
          contractAddress = env ''ETH_CONTRACT_ADDRESS''\<rparr>,
         \<lparr>name = ''BSC'', rpcUrl = env ''BSC_RPC_URL'',
          contractAddress = env ''BSC_CONTRACT_ADDRESS''\<rparr>,
         \<lparr>name = ''POLYGON'', rpcUrl = env ''POLYGON_RPC_URL'',
          contractAddress = env ''POLYGON_CONTRACT_ADDRESS''\<rparr>]
      in case map_networks connect networks w of
        (promises, w1) \<Rightarrow>
          (case Promise_all promises of
             Inl err \<Rightarrow> (Inl err, w1)
           | Inr u \<Rightarrow>
               (Inr (), console_log
                  [AStr ''All event listeners are now active and listening in parallel...''] w1)))"

text \<open>\<open>checkSupabaseConnection\<close>: one read of \<open>user_transactions\<close>, its outcome logged.\<close>

definition checkSupabaseConnection :: "world \<Rightarrow> world" where
  "checkSupabaseConnection w = (case request w of
       (Succeeds, w') \<Rightarrow> console_log [AStr ''Successfully connected to Supabase!''] w'
     | (Fails e, w') \<Rightarrow> console_error [AStr ''Error connecting to Supabase:'', AStr (message e)] w'
     | (Rejects e, w') \<Rightarrow>
         console_error [AStr ''Error during Supabase connection check:'', AStr (message e)] w')"

text \<open>
  The top level of the module: \<open>startListeners().catch(...)\<close>, whose handler logs the
  error; the answer to the connection check arrives after this synchronous part.
  Nothing in the module calls \<open>process.exit\<close> or sets an exit code.
\<close>

definition main ::
  "(string option \<Rightarrow> string option \<Rightarrow> error option) \<Rightarrow> (string \<Rightarrow> string option) \<Rightarrow> world \<Rightarrow> world" where
  "main connect env w =
     checkSupabaseConnection
       (case startListeners connect env w of
          (Inl err, w') \<Rightarrow> console_error [AStr ''Error starting event listeners:'', AErr err] w'
        | (Inr u, w') \<Rightarrow> w')"

section \<open>Notions used in the statements and proofs\<close>

text \<open>
  Whether an append made with \<open>n\<close> attempts lands, given the answers the backend
  will give: one of the first \<open>n\<close> answers is a success.
\<close>

fun lands :: "nat \<Rightarrow> outcome list \<Rightarrow> bool" where
  "lands 0 as = False"
| "lands (Suc n) [] = True"
| "lands (Suc n) (a # as) = (a = Succeeds \<or> lands n as)"

text \<open>
  The sum of amounts as the program computes sums: each amount read with \<open>Number\<close>,
  added in order with the Number addition starting from 0, the result printed with
  \<open>toString\<close>.
\<close>

definition js_sum :: "string list \<Rightarrow> string" where
  "js_sum xs = num_toString (foldl js_add (Finite 0) (map StringToNumber xs))"

definition totals :: "user_deposit \<Rightarrow> string \<times> string \<times> string" where
  "totals row = (total_native_deposit row, total_usdt_deposit row, total_token_amount row)"

text \<open>
  The totals the ledger gives for an address: none without a record; otherwise the
  sums of \<open>deposit_amount\<close> over its native records and over its usdt records, and of
  \<open>token_amount\<close> over all its records.
\<close>

definition ledger_totals :: "user_transaction list \<Rightarrow> string \<Rightarrow> (string \<times> string \<times> string) option" where
  "ledger_totals ledger a = (let rs = filter (\<lambda>r. user_transaction.address r = a) ledger in
     if rs = [] then None
     else Some (js_sum (map deposit_amount (filter (\<lambda>r. payment_type r = ''native'') rs)),
                js_sum (map deposit_amount (filter (\<lambda>r. payment_type r = ''usdt'') rs)),
                js_sum (map token_amount rs)))"

text \<open>A Number that is a binary64 value: rounding it gives it back.\<close>

definition is_Number :: "jsnum \<Rightarrow> bool" where
  "is_Number y = (case y of Finite x \<Rightarrow> to_double x = Finite x | _ \<Rightarrow> True)"

text \<open>The pattern \<open>^\\d+\\.\\d{6}$\<close>: digits, a point, six digits.\<close>

definition fixed6 :: "string \<Rightarrow> bool" where
  "fixed6 s = (let ip = takeWhile is_digit s; r = dropWhile is_digit s in
     ip \<noteq> [] \<and> (case r of c # fp \<Rightarrow> c = CHR ''.'' \<and> length fp = 6 \<and> list_all is_digit fp | [] \<Rightarrow> False))"

text \<open>An exponent part as \<open>toString\<close> writes it: empty, or \<open>e\<close>, a sign and digits.\<close>

datatype expo = NoExp | Exp bool string

fun expo_text :: "expo \<Rightarrow> string" where
  "expo_text NoExp = []"
| "expo_text (Exp neg ex) = CHR ''e'' # (if neg then CHR ''-'' else CHR ''+'') # ex"

fun expo_val :: "expo \<Rightarrow> int" where
  "expo_val NoExp = 0"
| "expo_val (Exp neg ex) = (if neg then - int (digits_val ex) else int (digits_val ex))"

fun expo_ok :: "expo \<Rightarrow> bool" where
  "expo_ok NoExp = True"
| "expo_ok (Exp neg ex) = all_digits ex"

text \<open>
  A literal that starts with digits, goes on (if at all) with a point or an exponent,
  ends in a digit and has the value \<open>q\<close>.
\<close>

definition plain_literal :: "string \<Rightarrow> rat \<Rightarrow> bool" where
  "plain_literal s q = (\<exists>ip t. s = ip @ t \<and> all_digits ip \<and>
     (t = [] \<or> hd t = CHR ''.'' \<or> hd t = CHR ''e'') \<and> is_digit (last s) \<and>
     StrUnsignedDecimalLiteral s = Some q)"


section \<open>Rounding to binary64\<close>

text \<open>For evaluation, the overflow bound \<open>2 ^ 1024\<close> written out.\<close>

lemma to_double_code [code]:
  "to_double q = (if q = 0 then Finite 0 else
     let a = \<bar>q\<bar>; p = ulp_exp a; v = of_int (rne (a / 2 powi p)) * 2 powi p in
     if 179769313486231590772930519078902473361797697894230657273430081157732675805500963132708477322407536021120113879871393357658789768814416622492847430639474124377767893424865485276302219601246094119453082952085005768838150682342462881473913110540827237163350510684586298239947245938479716304835356329624224137216 \<le> v
     then (if 0 < q then Infinity else NegInfinity)
     else Finite (if 0 < q then v else - v))"
  by (simp add: to_double_def Let_def)

lemma decimal_nonempty: "decimal n \<noteq> []"
  by (subst decimal.simps) simp

lemma quotient_of_pos:
  assumes "0 < q" "quotient_of q = (a, c)"
  shows "0 < a" "0 < c" "q = of_int a / of_int c"
proof -
  show c: "0 < c" using assms(2) by (rule quotient_of_denom_pos)
  show q: "q = of_int a / of_int c" using assms(2) by (rule quotient_of_div)
  show "0 < a" using assms(1) c q by (simp add: zero_less_divide_iff)
qed

lemma ilog_bounds:
  assumes "0 < q" "2 \<le> b"
  shows "of_nat b powi (ilog b q) \<le> q" and "q < of_nat b powi (ilog b q + 1)"
proof -
  obtain a c where ac: "quotient_of q = (a, c)" by (cases "quotient_of q")
  from quotient_of_pos[OF assms(1) ac] have a: "0 < a" and c: "0 < c" and q: "q = of_int a / of_int c" by auto
  define la where "la = floorlog b (nat a)"
  define lc where "lc = floorlog b (nat c)"
  have b1: "1 < b" using assms(2) by simp
  have B: "(of_nat b :: rat) \<noteq> 0" "(0::rat) < of_nat b" using assms(2) by auto
  from floorlog_bounds[of "nat a" b] a b1 have la: "b ^ (la - 1) \<le> nat a" "nat a < b ^ la"
    by (auto simp: la_def)
  from floorlog_bounds[of "nat c" b] c b1 have lc: "b ^ (lc - 1) \<le> nat c" "nat c < b ^ lc"
    by (auto simp: lc_def)
  have la_pos: "0 < la" using a b1 by (simp add: la_def floorlog_def)
  have lc_pos: "0 < lc" using c b1 by (simp add: lc_def floorlog_def)
  have a_rat: "(of_nat b :: rat) ^ (la - 1) \<le> of_int a" "(of_int a :: rat) < of_nat b ^ la"
  proof -
    have "(of_nat (b ^ (la - 1)) :: rat) \<le> of_nat (nat a)" using la(1) by (simp only: of_nat_le_iff)
    then show "(of_nat b :: rat) ^ (la - 1) \<le> of_int a" using a by simp
    have "(of_nat (nat a) :: rat) < of_nat (b ^ la)" using la(2) by (simp only: of_nat_less_iff)
    then show "(of_int a :: rat) < of_nat b ^ la" using a by simp
  qed
  have c_rat: "(of_nat b :: rat) ^ (lc - 1) \<le> of_int c" "(of_int c :: rat) < of_nat b ^ lc"
  proof -
    have "(of_nat (b ^ (lc - 1)) :: rat) \<le> of_nat (nat c)" using lc(1) by (simp only: of_nat_le_iff)
    then show "(of_nat b :: rat) ^ (lc - 1) \<le> of_int c" using c by simp
    have "(of_nat (nat c) :: rat) < of_nat (b ^ lc)" using lc(2) by (simp only: of_nat_less_iff)
    then show "(of_int c :: rat) < of_nat b ^ lc" using c by simp
  qed
  define e where "e = int la - int lc"
  have il: "ilog b q = (if of_nat b powi e \<le> q then e else e - 1)"
    by (simp add: ilog_def Let_def ac la_def lc_def e_def)
  have cpos: "(0::rat) < of_int c" using c by simp
  have pe: "(of_nat b :: rat) powi e = of_nat b ^ la / of_nat b ^ lc"
    using B by (simp add: e_def power_int_diff)
  have pe1: "(of_nat b :: rat) powi (e + 1) = of_nat b ^ la / of_nat b ^ (lc - 1)"
  proof -
    have "e + 1 = int la - int (lc - 1)" using lc_pos by (simp add: e_def)
    then show ?thesis using B by (simp add: power_int_diff)
  qed
  have pem1: "(of_nat b :: rat) powi (e - 1) = of_nat b ^ (la - 1) / of_nat b ^ lc"
  proof -
    have "e - 1 = int (la - 1) - int lc" using la_pos by (simp add: e_def)
    then show ?thesis using B by (simp add: power_int_diff)
  qed
  have up: "q < of_nat b powi (e + 1)"
  proof -
    have "q < of_nat b ^ la / of_int c" unfolding q using a_rat(2) cpos by (simp add: divide_strict_right_mono)
    also have "\<dots> \<le> of_nat b ^ la / of_nat b ^ (lc - 1)"
    proof (rule divide_left_mono)
      show "(of_nat b :: rat) ^ (lc - 1) \<le> of_int c" by (rule c_rat(1))
      show "(0::rat) \<le> of_nat b ^ la" by simp
      show "(0::rat) < of_int c * of_nat b ^ (lc - 1)" using cpos B by (intro mult_pos_pos) auto
    qed
    finally show ?thesis by (simp add: pe1)
  qed
  have low: "of_nat b powi (e - 1) \<le> q"
  proof -
    have "(of_nat b :: rat) ^ (la - 1) / of_nat b ^ lc \<le> of_nat b ^ (la - 1) / of_int c"
    proof (rule divide_left_mono)
      show "(of_int c :: rat) \<le> of_nat b ^ lc" using c_rat(2) by simp
      show "(0::rat) \<le> of_nat b ^ (la - 1)" by simp
      show "(0::rat) < of_nat b ^ lc * of_int c" using cpos B by (intro mult_pos_pos) auto
    qed
    also have "\<dots> \<le> q" unfolding q using a_rat(1) cpos by (simp add: divide_right_mono)
    finally show ?thesis by (simp add: pem1)
  qed
  show "of_nat b powi (ilog b q) \<le> q" using il low by (auto split: if_splits)
  show "q < of_nat b powi (ilog b q + 1)" using il up by (auto split: if_splits)
qed

lemma powi_strict_mono: "(1::rat) < b \<Longrightarrow> i < j \<Longrightarrow> b powi i < b powi j"
  by (rule power_int_strict_increasing)

lemma ilog_unique:
  assumes "2 \<le> b" "of_nat b powi e \<le> q" "q < of_nat b powi (e + 1)"
  shows "ilog b q = e"
proof -
  have b1: "(1::rat) < of_nat b" using assms(1) by simp
  have q: "0 < q" using assms(2) b1 by (meson less_le_trans not_less order.strict_trans zero_less_one zero_less_power_int)
  note B = ilog_bounds[OF q assms(1)]
  have "ilog b q < e + 1"
  proof (rule ccontr)
    assume "\<not> ilog b q < e + 1"
    then have "e + 1 \<le> ilog b q" by simp
    then have "of_nat b powi (e + 1) \<le> (of_nat b :: rat) powi (ilog b q)"
      using b1 by (intro power_int_increasing) auto
    with B(1) assms(3) show False by simp
  qed
  moreover have "e < ilog b q + 1"
  proof (rule ccontr)
    assume "\<not> e < ilog b q + 1"
    then have "ilog b q + 1 \<le> e" by simp
    then have "of_nat b powi (ilog b q + 1) \<le> (of_nat b :: rat) powi e"
      using b1 by (intro power_int_increasing) auto
    with B(2) assms(2) show False by simp
  qed
  ultimately show ?thesis by simp
qed

lemma rne_of_int [simp]: "rne (of_int n) = n"
  by (simp add: rne_def)

lemma rne_nonneg: "0 \<le> q \<Longrightarrow> 0 \<le> rne q"
  by (auto simp: rne_def Let_def)

lemma rne_floor_le: "\<lfloor>q\<rfloor> \<le> rne q"
  by (simp add: rne_def Let_def)

lemma rne_le_ceiling: "rne q \<le> \<lceil>q\<rceil>"
proof (cases "q = of_int \<lfloor>q\<rfloor>")
  case True
  then have "rne q = \<lfloor>q\<rfloor>" by (simp add: rne_def Let_def)
  then show ?thesis by (simp add: floor_le_ceiling)
next
  case False
  then have "\<lceil>q\<rceil> = \<lfloor>q\<rfloor> + 1"
    by (metis ceiling_altdef)
  moreover have "rne q \<le> \<lfloor>q\<rfloor> + 1" by (simp add: rne_def Let_def)
  ultimately show ?thesis by simp
qed

lemma rne_le: "q \<le> of_int n \<Longrightarrow> rne q \<le> n"
  using rne_le_ceiling[of q] by (simp add: ceiling_le_iff order_trans[OF _ iffD2[OF ceiling_le_iff]])

lemma rne_ge: "of_int n \<le> q \<Longrightarrow> n \<le> rne q"
  using rne_floor_le[of q] by (meson le_floor_iff order_trans)

lemma rne_error: "\<bar>of_int (rne q) - q\<bar> \<le> 1 / 2"
proof -
  have "of_int \<lfloor>q\<rfloor> \<le> q" "q < of_int \<lfloor>q\<rfloor> + 1" by linarith+
  then show ?thesis by (auto simp: rne_def Let_def abs_le_iff)
qed

lemma two_powi_pos [simp]: "(0::rat) < 2 powi p"
  by (simp add: zero_less_power_int)

lemma two_powi_add: "(2::rat) powi (a + b) = 2 powi a * 2 powi b"
  by (simp add: power_int_add)

lemma two_powi_nat: "0 \<le> p \<Longrightarrow> (2::rat) powi p = 2 ^ nat p"
  by (simp add: power_int_def)

lemma div_powi_less: "a < (2::rat) powi (p + k) \<Longrightarrow> a / 2 powi p < 2 powi k"
  by (simp add: pos_divide_less_eq two_powi_add mult.commute)

lemma div_powi_ge: "(2::rat) powi (p + k) \<le> a \<Longrightarrow> 2 powi k \<le> a / 2 powi p"
  by (simp add: pos_le_divide_eq two_powi_add mult.commute)

lemma to_double_pos:
  "0 < a \<Longrightarrow> to_double a =
     (let p = ulp_exp a; v = of_int (rne (a / 2 powi p)) * 2 powi p in
      if 2 ^ 1024 \<le> v then Infinity else Finite v)"
  by (simp add: to_double_def Let_def)

lemma to_double_0 [simp]: "to_double 0 = Finite 0"
  by (simp add: to_double_def)

lemma to_double_minus: "to_double (- q) = js_neg (to_double q)"
  by (simp add: to_double_def Let_def)

lemma ilog2_bounds:
  assumes "0 < a"
  shows "2 powi (ilog 2 a) \<le> a" "a < 2 powi (ilog 2 a + 1)"
  using ilog_bounds[OF assms, of 2] by simp_all

lemma ilog2_unique: "2 powi e \<le> q \<Longrightarrow> q < 2 powi (e + 1) \<Longrightarrow> ilog 2 q = e"
  using ilog_unique[of 2 e q] by simp

text \<open>The mantissa chosen for a positive rational.\<close>

lemma mantissa_bounds:
  assumes "0 < a"
  defines "m \<equiv> rne (a / 2 powi (ulp_exp a))"
  shows "0 \<le> m" "m \<le> 2 ^ 53" "- 1022 \<le> ilog 2 a \<Longrightarrow> 2 ^ 52 \<le> m"
proof -
  let ?p = "ulp_exp a"
  have "0 \<le> a / 2 powi ?p" using assms(1) by simp
  then show "0 \<le> m" unfolding m_def by (rule rne_nonneg)
  have "ilog 2 a + 1 \<le> ?p + 53" by (simp add: ulp_exp_def)
  then have "(2::rat) powi (ilog 2 a + 1) \<le> 2 powi (?p + 53)"
    by (intro power_int_increasing) auto
  with ilog2_bounds(2)[OF assms(1)] have "a < 2 powi (?p + 53)" by simp
  then have "a / 2 powi ?p < 2 powi 53" by (rule div_powi_less)
  then have "a / 2 powi ?p \<le> of_int (2 ^ 53)" by (simp add: two_powi_nat)
  then show "m \<le> 2 ^ 53" unfolding m_def by (rule rne_le)
  assume n: "- 1022 \<le> ilog 2 a"
  then have "?p + 52 = ilog 2 a" by (simp add: ulp_exp_def)
  with ilog2_bounds(1)[OF assms(1)] have "2 powi (?p + 52) \<le> a" by simp
  then have "2 powi 52 \<le> a / 2 powi ?p" by (rule div_powi_ge)
  then have "of_int (2 ^ 52) \<le> a / 2 powi ?p" by (simp add: two_powi_nat)
  then show "2 ^ 52 \<le> m" unfolding m_def by (rule rne_ge)
qed

lemma ulp_exp_mantissa:
  assumes "0 < a"
  defines "p \<equiv> ulp_exp a"
  defines "m \<equiv> rne (a / 2 powi p)"
  assumes "0 < m"
  shows "rat_of_int (rne (of_int m * 2 powi p / 2 powi (ulp_exp (of_int m * 2 powi p))))
          * 2 powi (ulp_exp (of_int m * 2 powi p)) = of_int m * 2 powi p"
proof -
  let ?v = "rat_of_int m * 2 powi p"
  note mb = mantissa_bounds[OF assms(1), folded p_def, folded m_def]
  have p_ge: "- 1074 \<le> p" by (simp add: p_def ulp_exp_def)
  consider (A) "m = 2 ^ 53" | (B) "2 ^ 52 \<le> m" "m < 2 ^ 53" | (C) "m < 2 ^ 52"
    using mb(2) by linarith
  then show ?thesis
  proof cases
    case A
    have v: "?v = 2 powi (p + 53)" by (simp add: A two_powi_add two_powi_nat)
    have "ilog 2 ?v = p + 53" unfolding v
      by (rule ilog2_unique) (auto intro!: power_int_strict_increasing)
    then have pe: "ulp_exp ?v = p + 1" using p_ge by (simp add: ulp_exp_def)
    have "?v / 2 powi (p + 1) = of_int (2 ^ 52)"
      unfolding v by (simp add: two_powi_add two_powi_nat)
    then show ?thesis unfolding pe
      by (simp only: rne_of_int) (simp add: v two_powi_add two_powi_nat)
  next
    case B
    have "rat_of_int (2 ^ 52) \<le> of_int m" using B(1) by (simp only: of_int_le_iff)
    then have "2 powi 52 * 2 powi p \<le> ?v" by (simp add: two_powi_nat)
    then have lo: "2 powi (p + 52) \<le> ?v" by (simp add: two_powi_add mult.commute)
    have "rat_of_int m < of_int (2 ^ 53)" using B(2) by (simp only: of_int_less_iff)
    then have "?v < 2 powi 53 * 2 powi p" by (simp add: two_powi_nat)
    then have hi: "?v < 2 powi (p + 52 + 1)" by (simp add: two_powi_add mult.commute)
    have "ilog 2 ?v = p + 52" using lo hi by (rule ilog2_unique)
    then have pe: "ulp_exp ?v = p" using p_ge by (simp add: ulp_exp_def)
    show ?thesis unfolding pe by simp
  next
    case C
    have small: "ilog 2 a < - 1022" using mb(3) C by linarith
    then have p: "p = - 1074" by (simp add: p_def ulp_exp_def)
    have vpos: "0 < ?v" using assms(4) by simp
    have "rat_of_int m < of_int (2 ^ 52)" using C by (simp only: of_int_less_iff)
    then have "?v < 2 powi 52 * 2 powi p" by (simp add: two_powi_nat)
    then have hi: "?v < 2 powi (- 1022)" unfolding p by (simp add: two_powi_add[symmetric])
    have "ilog 2 ?v < - 1022"
    proof (rule ccontr)
      assume "\<not> ilog 2 ?v < - 1022"
      then have "(2::rat) powi (- 1022) \<le> 2 powi (ilog 2 ?v)"
        by (intro power_int_increasing) auto
      with ilog2_bounds(1)[OF vpos] hi show False by simp
    qed
    then have pe: "ulp_exp ?v = p" by (simp add: ulp_exp_def p)
    show ?thesis unfolding pe by simp
  qed
qed

lemma to_double_idem_pos:
  assumes "0 < a" "to_double a = Finite v"
  shows "to_double v = Finite v"
proof -
  define p where "p = ulp_exp a"
  define m where "m = rne (a / 2 powi p)"
  have v: "v = of_int m * 2 powi p" and small: "v < 2 ^ 1024"
    using assms by (auto simp: to_double_pos Let_def p_def m_def split: if_splits)
  have m0: "0 \<le> m" using mantissa_bounds(1)[OF assms(1)] by (simp add: m_def p_def)
  show ?thesis
  proof (cases "m = 0")
    case True
    then show ?thesis by (simp add: v)
  next
    case False
    then have mpos: "0 < m" using m0 by simp
    then have vpos: "0 < v" by (simp add: v)
    from ulp_exp_mantissa[OF assms(1), folded p_def, folded m_def, OF mpos]
    have "rat_of_int (rne (v / 2 powi (ulp_exp v))) * 2 powi (ulp_exp v) = v"
      by (simp add: v)
    then show ?thesis using small vpos by (simp add: to_double_pos Let_def)
  qed
qed

lemma to_double_idem:
  assumes "to_double q = Finite v"
  shows "to_double v = Finite v"
proof -
  consider "q = 0" | "0 < q" | "q < 0" by linarith
  then show ?thesis
  proof cases
    case 1
    then show ?thesis using assms by simp
  next
    case 2
    then show ?thesis using assms by (rule to_double_idem_pos)
  next
    case 3
    then have pos: "0 < - q" by simp
    have "to_double (- q) = Finite (- v)" using assms by (simp add: to_double_minus)
    from to_double_idem_pos[OF pos this] have "to_double (- v) = Finite (- v)" .
    then have "js_neg (to_double v) = Finite (- v)" by (simp add: to_double_minus)
    then show ?thesis by (cases "to_double v") auto
  qed
qed

lemma to_double_sign:
  assumes "0 \<le> q"
  shows "to_double q = Infinity \<or> (\<exists>v. to_double q = Finite v \<and> 0 \<le> v)"
proof (cases "q = 0")
  case True
  then show ?thesis by simp
next
  case False
  then have q: "0 < q" using assms by simp
  have "0 \<le> rne (q / 2 powi (ulp_exp q))" using q by (intro rne_nonneg) simp
  then show ?thesis using q by (simp add: to_double_pos Let_def)
qed

section \<open>Digits and literals\<close>

lemma is_digit_digit_char [simp]: "d < 10 \<Longrightarrow> is_digit (digit_char d)"
  by (simp add: is_digit_def digit_char_def)

lemma digit_val_digit_char [simp]: "d < 10 \<Longrightarrow> digit_val (digit_char d) = d"
  by (simp add: digit_val_def digit_char_def)

lemma digit_val_less: "is_digit c \<Longrightarrow> digit_val c < 10"
  by (auto simp: is_digit_def digit_val_def)

lemma not_is_digit_chars [simp]:
  "\<not> is_digit CHR ''.''" "\<not> is_digit CHR ''e''" "\<not> is_digit CHR ''E''"
  "\<not> is_digit CHR ''+''" "\<not> is_digit CHR ''-''" "\<not> is_digit CHR ''I''" "\<not> is_digit CHR ''N''"
  by (simp_all add: is_digit_def)

lemma is_digit_not_special:
  assumes "is_digit c"
  shows "c \<noteq> CHR ''.''" "c \<noteq> CHR ''e''" "c \<noteq> CHR ''E''" "c \<noteq> CHR ''+''" "c \<noteq> CHR ''-''"
    "c \<noteq> CHR ''I''" "c \<noteq> CHR ''x''" "c \<noteq> CHR ''X''" "c \<noteq> CHR ''o''" "c \<noteq> CHR ''O''"
    "c \<noteq> CHR ''b''" "c \<noteq> CHR ''B''" "\<not> is_space c"
  using assms by (auto simp: is_digit_def is_space_def)

lemma is_digit_zero [simp]: "is_digit CHR ''0''"
  by (simp add: is_digit_def)

lemma digit_val_zero [simp]: "digit_val CHR ''0'' = 0"
  by (simp add: digit_val_def)

lemma decimal_digits: "list_all is_digit (decimal n)"
  by (induction n rule: decimal.induct) (subst decimal.simps, simp)

lemma all_digits_decimal [simp]: "all_digits (decimal n)"
  by (simp add: all_digits_def decimal_digits decimal_nonempty)

lemma digits_val_Nil [simp]: "digits_val [] = 0"
  by (simp add: digits_val_def)

lemma digits_val_snoc [simp]: "digits_val (xs @ [c]) = 10 * digits_val xs + digit_val c"
  by (simp add: digits_val_def)

lemma digits_val_single [simp]: "digits_val [c] = digit_val c"
  by (simp add: digits_val_def)

lemma digits_val_append: "digits_val (xs @ ys) = digits_val xs * 10 ^ length ys + digits_val ys"
proof (induction ys rule: rev_induct)
  case Nil
  then show ?case by simp
next
  case (snoc y ys)
  have "digits_val (xs @ ys @ [y]) = 10 * digits_val (xs @ ys) + digit_val y"
    using digits_val_snoc[of "xs @ ys" y] by simp
  then show ?case by (simp add: snoc.IH algebra_simps)
qed

lemma digits_val_decimal [simp]: "digits_val (decimal n) = n"
  by (induction n rule: decimal.induct) (subst decimal.simps, simp)

lemma digits_val_zeros [simp]: "digits_val (zeros k) = 0"
  by (induction k) (simp_all add: zeros_def digits_val_def)

lemma digits_val_zeros_append [simp]: "digits_val (zeros k @ ds) = digits_val ds"
  by (simp add: digits_val_append)

lemma length_zeros [simp]: "length (zeros k) = k"
  by (simp add: zeros_def)

lemma zeros_digits [simp]: "list_all is_digit (zeros k)"
  by (simp add: zeros_def list_all_iff)

lemma length_decimal_le: "n < 10 ^ k \<Longrightarrow> 0 < k \<Longrightarrow> length (decimal n) \<le> k"
proof (induction n arbitrary: k rule: decimal.induct)
  case (1 n)
  show ?case
  proof (cases "n < 10")
    case True
    then show ?thesis using 1(3) by (subst decimal.simps) simp
  next
    case False
    then have k: "1 < k" using 1(2) by (cases "k = 1") (use 1(3) in auto)
    have "n div 10 < 10 ^ (k - 1)"
      using 1(2) k by (cases k) (auto simp: less_mult_imp_div_less mult.commute)
    from 1(1)[OF False this] k have "length (decimal (n div 10)) \<le> k - 1" by simp
    then show ?thesis using False k by (subst decimal.simps) simp
  qed
qed

lemma digits_val_less: "list_all is_digit ds \<Longrightarrow> digits_val ds < 10 ^ length ds"
proof (induction ds rule: rev_induct)
  case Nil
  then show ?case by simp
next
  case (snoc c ds)
  then have "digit_val c < 10" "digits_val ds < 10 ^ length ds" by (auto intro: digit_val_less)
  then have "10 * digits_val ds + digit_val c < 10 * 10 ^ length ds" by linarith
  then show ?case by simp
qed

subsection \<open>Reading decimal literals\<close>

lemma takeWhile_digits_append:
  "list_all is_digit ds \<Longrightarrow> (r = [] \<or> \<not> is_digit (hd r)) \<Longrightarrow> takeWhile is_digit (ds @ r) = ds"
  by (cases r) (auto simp: list_all_iff takeWhile_append2 intro: takeWhile_eq_all_conv[THEN iffD2])

lemma dropWhile_digits_append:
  "list_all is_digit ds \<Longrightarrow> (r = [] \<or> \<not> is_digit (hd r)) \<Longrightarrow> dropWhile is_digit (ds @ r) = r"
  by (cases r) (auto simp: list_all_iff dropWhile_append2)

lemma SignedInteger_plus: "all_digits ex \<Longrightarrow> SignedInteger (CHR ''+'' # ex) = Some (int (digits_val ex))"
  by (simp add: SignedInteger_def)

lemma SignedInteger_minus: "all_digits ex \<Longrightarrow> SignedInteger (CHR ''-'' # ex) = Some (- int (digits_val ex))"
  by (simp add: SignedInteger_def)

lemma ExponentPart_expo: "expo_ok x \<Longrightarrow> ExponentPart (expo_text x) = Some (expo_val x)"
  by (cases x) (simp_all add: ExponentPart_def SignedInteger_plus SignedInteger_minus)

lemma expo_text_hd: "expo_text x = [] \<or> \<not> is_digit (hd (expo_text x))"
  by (cases x) simp_all

lemma expo_text_hd_dot: "expo_text x = [] \<or> hd (expo_text x) \<noteq> CHR ''.''"
  by (cases x) simp_all

lemma parse_int_exp:
  assumes "all_digits ip" "expo_ok x"
  shows "StrUnsignedDecimalLiteral (ip @ expo_text x) = Some (of_nat (digits_val ip) * 10 powi (expo_val x))"
proof -
  have ip: "list_all is_digit ip" "ip \<noteq> []" using assms(1) by (auto simp: all_digits_def)
  have t: "takeWhile is_digit (ip @ expo_text x) = ip"
    using ip(1) expo_text_hd by (rule takeWhile_digits_append)
  have d: "dropWhile is_digit (ip @ expo_text x) = expo_text x"
    using ip(1) expo_text_hd by (rule dropWhile_digits_append)
  show ?thesis
    unfolding StrUnsignedDecimalLiteral_def Let_def t d
    using ip(2) assms(2) by (cases x) (simp_all add: ExponentPart_def SignedInteger_plus SignedInteger_minus)
qed

lemma parse_frac_exp:
  assumes "all_digits ip" "list_all is_digit fp" "expo_ok x"
  shows "StrUnsignedDecimalLiteral (ip @ CHR ''.'' # fp @ expo_text x) =
    Some (of_nat (digits_val (ip @ fp)) * 10 powi (expo_val x - int (length fp)))"
proof -
  have ip: "list_all is_digit ip" "ip \<noteq> []" using assms(1) by (auto simp: all_digits_def)
  have t: "takeWhile is_digit (ip @ CHR ''.'' # fp @ expo_text x) = ip"
    using ip(1) by (rule takeWhile_digits_append) simp
  have d: "dropWhile is_digit (ip @ CHR ''.'' # fp @ expo_text x) = CHR ''.'' # fp @ expo_text x"
    using ip(1) by (rule dropWhile_digits_append) simp
  have t2: "takeWhile is_digit (fp @ expo_text x) = fp"
    using assms(2) expo_text_hd by (rule takeWhile_digits_append)
  have d2: "dropWhile is_digit (fp @ expo_text x) = expo_text x"
    using assms(2) expo_text_hd by (rule dropWhile_digits_append)
  show ?thesis
    unfolding StrUnsignedDecimalLiteral_def Let_def t d
    using ip(2) assms(3) by (simp add: t2 d2 ExponentPart_expo)
qed

lemma trim_id:
  assumes "s \<noteq> []" "\<not> is_space (hd s)" "\<not> is_space (last s)"
  shows "trim s = s"
proof -
  have 1: "dropWhile is_space s = s" using assms(1,2) by (cases s) auto
  have 2: "dropWhile is_space (rev s) = rev s" using assms(1,3) by (cases s rule: rev_cases) auto
  show ?thesis by (simp add: trim_def 1 2)
qed

text \<open>A literal that starts and ends with a digit and has no radix prefix is read as a decimal.\<close>

lemma StringToNumber_decimal:
  assumes "is_digit c" "is_digit (last (c # r))"
    and "r = [] \<or> is_digit (hd r) \<or> hd r = CHR ''.'' \<or> hd r = CHR ''e''"
  shows "StringToNumber (c # r) =
    (case StrUnsignedDecimalLiteral (c # r) of None \<Rightarrow> NaN | Some q \<Rightarrow> to_double q)"
proof -
  have tr: "trim (c # r) = c # r"
    using assms(1,2) by (intro trim_id) (auto dest: is_digit_not_special)
  have c: "c \<noteq> CHR ''+''" "c \<noteq> CHR ''-''" "c \<noteq> CHR ''I''"
    using assms(1) by (auto dest: is_digit_not_special)
  have sd: "StrDecimalLiteral (c # r) =
    (case StrUnsignedDecimalLiteral (c # r) of None \<Rightarrow> NaN | Some q \<Rightarrow> to_double q)"
    using c by (simp add: StrDecimalLiteral_def split: option.splits)
  show ?thesis
  proof (cases r)
    case Nil
    then show ?thesis using sd unfolding StringToNumber_def Let_def tr by simp
  next
    case (Cons d r')
    then have "d \<noteq> CHR ''x''" "d \<noteq> CHR ''X''" "d \<noteq> CHR ''o''" "d \<noteq> CHR ''O''"
      "d \<noteq> CHR ''b''" "d \<noteq> CHR ''B''"
      using assms(3) by (auto dest: is_digit_not_special)
    then show ?thesis unfolding StringToNumber_def Let_def tr using Cons sd by simp
  qed
qed

lemma all_digits_last: "all_digits ds \<Longrightarrow> is_digit (last ds)"
  by (cases ds rule: rev_cases) (auto simp: all_digits_def)

lemma all_digits_hd: "all_digits ds \<Longrightarrow> is_digit (hd ds)"
  by (cases ds) (auto simp: all_digits_def)

lemma StringToNumber_digits_first:
  assumes "all_digits ip" "is_digit (last (ip @ t))"
    and "t = [] \<or> hd t = CHR ''.'' \<or> hd t = CHR ''e''"
  shows "StringToNumber (ip @ t) =
    (case StrUnsignedDecimalLiteral (ip @ t) of None \<Rightarrow> NaN | Some q \<Rightarrow> to_double q)"
proof -
  obtain c r where ip: "ip = c # r" using assms(1) by (cases ip) (auto simp: all_digits_def)
  have c: "is_digit c" and r: "list_all is_digit r" using assms(1) by (auto simp: ip all_digits_def)
  have hd: "r @ t = [] \<or> is_digit (hd (r @ t)) \<or> hd (r @ t) = CHR ''.'' \<or> hd (r @ t) = CHR ''e''"
    using r assms(3) by (cases r) auto
  show ?thesis
    using StringToNumber_decimal[OF c _ hd] assms(2) by (simp add: ip)
qed

lemma StringToNumber_decimal_nat: "StringToNumber (decimal n) = to_double (of_nat n)"
proof -
  have "StringToNumber (decimal n @ []) =
    (case StrUnsignedDecimalLiteral (decimal n @ []) of None \<Rightarrow> NaN | Some q \<Rightarrow> to_double q)"
    by (rule StringToNumber_digits_first) (simp_all add: all_digits_last)
  moreover have "StrUnsignedDecimalLiteral (decimal n @ expo_text NoExp) =
      Some (of_nat (digits_val (decimal n)) * 10 powi (expo_val NoExp))"
    by (rule parse_int_exp) simp_all
  ultimately show ?thesis by simp
qed

subsection \<open>\<open>formatEther\<close>\<close>

lemma strip_fraction_props:
  assumes "list_all is_digit fr" "fr \<noteq> []"
  shows "all_digits (strip_fraction fr)"
    and "length (strip_fraction fr) \<le> length fr"
    and "digits_val (strip_fraction fr) * 10 ^ (length fr - length (strip_fraction fr)) = digits_val fr"
proof -
  define z where "z = takeWhile (\<lambda>c. c = CHR ''0'') (rev fr)"
  define s where "s = rev (dropWhile (\<lambda>c. c = CHR ''0'') (rev fr))"
  have fr: "fr = s @ rev z"
    unfolding s_def z_def by (metis rev_append rev_rev_ident takeWhile_dropWhile_id)
  have z: "rev z = zeros (length z)"
  proof -
    have "\<forall>c \<in> set z. c = CHR ''0''" unfolding z_def by (auto dest: set_takeWhileD)
    then have "z = replicate (length z) (CHR ''0'')" by (simp add: replicate_length_same)
    then have "rev z = replicate (length z) (CHR ''0'')" by (metis rev_replicate)
    then show ?thesis by (simp add: zeros_def)
  qed
  have sd: "list_all is_digit s" using assms(1) fr by (metis list_all_append)
  have sf: "strip_fraction fr = (if s = [] then ''0'' else s)"
    by (simp add: strip_fraction_def s_def Let_def)
  have len: "length fr = length s + length z" using fr by (metis length_append length_rev)
  have val: "digits_val fr = digits_val s * 10 ^ length z"
  proof -
    have "digits_val fr = digits_val (s @ zeros (length z))" using fr z by simp
    then show ?thesis by (simp add: digits_val_append)
  qed
  show "all_digits (strip_fraction fr)" using sd by (simp add: sf all_digits_def)
  show "length (strip_fraction fr) \<le> length fr"
  proof (cases "s = []")
    case True
    have "Suc 0 \<le> length fr" using assms(2) by (cases fr) simp_all
    then show ?thesis using True by (simp add: sf)
  next
    case False
    then show ?thesis by (simp add: sf len)
  qed
  show "digits_val (strip_fraction fr) * 10 ^ (length fr - length (strip_fraction fr)) = digits_val fr"
  proof (cases "s = []")
    case True
    then show ?thesis by (simp add: sf val)
  next
    case False
    then show ?thesis by (simp add: sf val len)
  qed
qed

lemma formatEther_value: "StringToNumber (formatEther v) = to_double (of_nat v / 10 ^ 18)"
proof -
  define W where "W = v div 10 ^ 18"
  define F where "F = v mod 10 ^ 18"
  define padded where "padded = zeros (18 - length (decimal F)) @ decimal F"
  define fp where "fp = strip_fraction padded"
  have F: "F < 10 ^ 18" by (simp add: F_def)
  have lenF: "length (decimal F) \<le> 18" using F by (rule length_decimal_le) simp
  have lp: "length padded = 18" using lenF by (simp add: padded_def)
  have pd: "list_all is_digit padded" by (simp add: padded_def decimal_digits)
  have pv: "digits_val padded = F" by (simp add: padded_def)
  have pne: "padded \<noteq> []" using lp by auto
  note sp = strip_fraction_props[OF pd pne, folded fp_def]
  have fe: "formatEther v = decimal W @ CHR ''.'' # fp"
    by (simp add: formatEther_def Let_def W_def F_def padded_def fp_def)
  have fpd: "list_all is_digit fp" "fp \<noteq> []" using sp(1) by (auto simp: all_digits_def)
  have "StringToNumber (decimal W @ CHR ''.'' # fp) =
    (case StrUnsignedDecimalLiteral (decimal W @ CHR ''.'' # fp) of None \<Rightarrow> NaN | Some q \<Rightarrow> to_double q)"
    using fpd sp(1) by (intro StringToNumber_digits_first) (auto simp: all_digits_last)
  moreover have "StrUnsignedDecimalLiteral (decimal W @ CHR ''.'' # fp @ expo_text NoExp) =
      Some (of_nat (digits_val (decimal W @ fp)) * 10 powi (expo_val NoExp - int (length fp)))"
    using fpd by (intro parse_frac_exp) simp_all
  ultimately have 1: "StringToNumber (formatEther v) =
      to_double (of_nat (digits_val (decimal W @ fp)) * 10 powi (- int (length fp)))"
    by (simp add: fe)
  have "rat_of_nat (digits_val (decimal W @ fp)) * 10 powi (- int (length fp)) = of_nat v / 10 ^ 18"
  proof -
    have v: "v = W * 10 ^ 18 + F" by (simp add: W_def F_def)
    have Fv: "rat_of_nat F = of_nat (digits_val fp) * 10 ^ (18 - length fp)"
      using sp(3) lp pv by (metis of_nat_mult of_nat_numeral of_nat_power)
    have p18: "(10::rat) ^ 18 = 10 ^ length fp * 10 ^ (18 - length fp)"
      using sp(2) lp by (simp flip: power_add)
    have "rat_of_nat (digits_val (decimal W @ fp)) * 10 powi (- int (length fp))
        = (of_nat W * 10 ^ length fp + of_nat (digits_val fp)) / 10 ^ length fp"
      by (simp add: digits_val_append power_int_minus divide_inverse)
    also have "\<dots> = (of_nat W * 10 ^ 18 + of_nat F) / 10 ^ 18"
      unfolding Fv p18 by (simp add: field_simps)
    also have "\<dots> = of_nat v / 10 ^ 18" by (simp add: v)
    finally show ?thesis .
  qed
  with 1 show ?thesis by simp
qed

lemma plain_literalI:
  "all_digits ip \<Longrightarrow> t = [] \<or> hd t = CHR ''.'' \<or> hd t = CHR ''e'' \<Longrightarrow> is_digit (last (ip @ t)) \<Longrightarrow>
   StrUnsignedDecimalLiteral (ip @ t) = Some q \<Longrightarrow> plain_literal (ip @ t) q"
  unfolding plain_literal_def by blast

lemma plain_literal_Number:
  assumes "plain_literal s q"
  shows "StringToNumber s = to_double q"
proof -
  from assms obtain ip t where s: "s = ip @ t" and ip: "all_digits ip"
    and t: "t = [] \<or> hd t = CHR ''.'' \<or> hd t = CHR ''e''" and l: "is_digit (last s)"
    and p: "StrUnsignedDecimalLiteral s = Some q"
    unfolding plain_literal_def by blast
  from StringToNumber_digits_first[OF ip _ t] l p show ?thesis by (simp add: s)
qed

lemma plain_literal_nonempty:
  assumes "plain_literal s q"
  shows "s \<noteq> [] \<and> is_digit (hd s) \<and> is_digit (last s)"
proof -
  from assms obtain ip t where s: "s = ip @ t" and ip: "all_digits ip" and l: "is_digit (last s)"
    unfolding plain_literal_def by blast
  from ip obtain c r where "ip = c # r" "is_digit c" by (cases ip) (auto simp: all_digits_def)
  then show ?thesis using s l by simp
qed

lemma plain_literal_minus:
  assumes "plain_literal s q"
  shows "StringToNumber (CHR ''-'' # s) = to_double (- q)"
proof -
  from plain_literal_nonempty[OF assms] obtain c r where s: "s = c # r" and c: "is_digit c"
    and l: "is_digit (last s)" by (cases s) auto
  have p: "StrUnsignedDecimalLiteral s = Some q" using assms unfolding plain_literal_def by blast
  have tr: "trim (CHR ''-'' # s) = CHR ''-'' # s"
    using l s by (intro trim_id) (auto simp: is_space_def dest: is_digit_not_special)
  have c': "c \<noteq> CHR ''x''" "c \<noteq> CHR ''X''" "c \<noteq> CHR ''o''" "c \<noteq> CHR ''O''"
      "c \<noteq> CHR ''b''" "c \<noteq> CHR ''B''" "c \<noteq> CHR ''I''"
    using c by (auto dest: is_digit_not_special)
  have "StrDecimalLiteral (CHR ''-'' # s) = to_double (- q)"
    using p c' s by (simp add: StrDecimalLiteral_def)
  then show ?thesis
    unfolding StringToNumber_def Let_def tr using c' s by simp
qed

lemma plain_literal_decimal: "plain_literal (decimal n) (of_nat n)"
proof -
  have "StrUnsignedDecimalLiteral (decimal n @ expo_text NoExp) =
      Some (of_nat (digits_val (decimal n)) * 10 powi (expo_val NoExp))"
    by (rule parse_int_exp) simp_all
  then have "plain_literal (decimal n @ []) (of_nat n)"
    by (intro plain_literalI) (simp_all add: all_digits_last)
  then show ?thesis by simp
qed

lemma plain_literal_frac:
  assumes "all_digits ip" "all_digits fp"
  shows "plain_literal (ip @ CHR ''.'' # fp) (of_nat (digits_val (ip @ fp)) / 10 ^ length fp)"
proof -
  have fp: "list_all is_digit fp" "fp \<noteq> []" using assms(2) by (auto simp: all_digits_def)
  have "StrUnsignedDecimalLiteral (ip @ CHR ''.'' # fp @ expo_text NoExp) =
      Some (of_nat (digits_val (ip @ fp)) * 10 powi (expo_val NoExp - int (length fp)))"
    using assms(1) fp(1) by (intro parse_frac_exp) simp_all
  then have "StrUnsignedDecimalLiteral (ip @ CHR ''.'' # fp) = Some (of_nat (digits_val (ip @ fp)) / 10 ^ length fp)"
    by (simp add: power_int_minus divide_inverse)
  then show ?thesis
    using assms fp by (intro plain_literalI) (simp_all add: all_digits_last)
qed

subsection \<open>\<open>toFixed\<close>\<close>

lemma fixed6I:
  assumes "all_digits ip" "list_all is_digit fp" "length fp = 6"
  shows "fixed6 (ip @ CHR ''.'' # fp)"
proof -
  have ip: "list_all is_digit ip" "ip \<noteq> []" using assms(1) by (auto simp: all_digits_def)
  have t: "takeWhile is_digit (ip @ CHR ''.'' # fp) = ip"
    using ip(1) by (rule takeWhile_digits_append) simp
  have d: "dropWhile is_digit (ip @ CHR ''.'' # fp) = CHR ''.'' # fp"
    using ip(1) by (rule dropWhile_digits_append) simp
  show ?thesis unfolding fixed6_def Let_def t d using ip(2) assms(2,3) by simp
qed

text \<open>The digits \<open>toFixed(f)\<close> prints for the integer \<open>n\<close>, split at the point.\<close>

lemma toFixed_split:
  assumes "0 \<le> q" "q < 10 ^ 21" "0 < f"
  defines "n \<equiv> nat \<lfloor>q * 10 ^ f + 1 / 2\<rfloor>"
  shows "\<exists>ip fp. toFixed f (Finite q) = ip @ CHR ''.'' # fp \<and> all_digits ip \<and> list_all is_digit fp \<and>
           length fp = f \<and> digits_val (ip @ fp) = n"
proof -
  define m where "m = decimal n"
  define m' where "m' = (if length m \<le> f then zeros (f + 1 - length m) @ m else m)"
  define k where "k = length m'"
  have md: "list_all is_digit m'" by (simp add: m'_def m_def decimal_digits)
  have kf: "f < k" by (simp add: k_def m'_def)
  have val: "digits_val m' = n" by (simp add: m'_def m_def)
  have tf: "toFixed f (Finite q) = take (k - f) m' @ CHR ''.'' # drop (k - f) m'"
    using assms(1,2,3) by (simp add: toFixed_def Let_def n_def m_def m'_def k_def)
  have 1: "all_digits (take (k - f) m')"
    using md kf by (auto simp: all_digits_def k_def list_all_iff dest: in_set_takeD)
  have 2: "list_all is_digit (drop (k - f) m')"
    using md by (auto simp: list_all_iff dest: in_set_dropD)
  have 3: "length (drop (k - f) m') = f" using kf by (simp add: k_def)
  have 4: "digits_val (take (k - f) m' @ drop (k - f) m') = n" by (simp add: val)
  show ?thesis using tf 1 2 3 4 by blast
qed

lemma toFixed6_pattern:
  assumes "0 \<le> q" "q < 10 ^ 21"
  shows "fixed6 (toFixed 6 (Finite q))"
proof -
  from toFixed_split[OF assms, of 6] obtain ip fp where
    "toFixed 6 (Finite q) = ip @ CHR ''.'' # fp" "all_digits ip" "list_all is_digit fp" "length fp = 6"
    by auto
  then show ?thesis by (simp add: fixed6I)
qed

lemma toFixed6_literal:
  assumes "0 \<le> q" "q < 10 ^ 21"
  shows "plain_literal (toFixed 6 (Finite q)) (of_int \<lfloor>q * 10 ^ 6 + 1 / 2\<rfloor> / 10 ^ 6)"
proof -
  from toFixed_split[OF assms, of 6] obtain ip fp where
    tf: "toFixed 6 (Finite q) = ip @ CHR ''.'' # fp" and ip: "all_digits ip"
    and fp: "list_all is_digit fp" "length fp = 6"
    and v: "digits_val (ip @ fp) = nat \<lfloor>q * 10 ^ 6 + 1 / 2\<rfloor>"
    by auto
  have fp': "all_digits fp" using fp by (auto simp: all_digits_def)
  have nn: "0 \<le> \<lfloor>q * 10 ^ 6 + 1 / 2\<rfloor>" using assms(1) by simp
  from plain_literal_frac[OF ip fp'] show ?thesis
    unfolding tf v fp(2) using nn by simp
qed

lemma ten_powi_pos [simp]: "(0::rat) < 10 powi p"
  by (simp add: zero_less_power_int)

lemma strip10_value:
  "strip10 s e = (s', e') \<Longrightarrow> rat_of_nat s' * 10 powi e' = of_nat s * 10 powi e"
proof (induction s e rule: strip10.induct)
  case (1 s e)
  show ?case
  proof (cases "s \<noteq> 0 \<and> s mod 10 = 0")
    case True
    then have "strip10 (s div 10) (e + 1) = (s', e')" using 1(2) by (subst (asm) strip10.simps) simp
    from 1(1)[OF True this] have "rat_of_nat s' * 10 powi e' = of_nat (s div 10) * 10 powi (e + 1)" .
    also have "\<dots> = of_nat (s div 10 * 10) * 10 powi e" by (simp add: power_int_add)
    also have "s div 10 * 10 = s" using True by auto
    finally show ?thesis .
  next
    case False
    then show ?thesis using 1(2) by (subst (asm) strip10.simps) auto
  qed
qed

lemma div_pow10: "(a::rat) / 10 ^ j = a * 10 powi (- int j)"
  by (simp add: power_int_minus divide_inverse)

text \<open>What \<open>format_digits\<close> prints reads back as the value of the digits.\<close>

lemma format_digits_literal: "plain_literal (format_digits (s, e)) (of_nat s * 10 powi e)"
proof -
  obtain s' e' where st: "strip10 s e = (s', e')" by (cases "strip10 s e")
  define ds where "ds = decimal s'"
  define k where "k = int (length ds)"
  define n where "n = e' + k"
  have val: "rat_of_nat s' * 10 powi e' = of_nat s * 10 powi e" using st by (rule strip10_value)
  have dd: "all_digits ds" "list_all is_digit ds" "ds \<noteq> []" "digits_val ds = s'"
    by (simp_all add: ds_def decimal_digits decimal_nonempty)
  have kpos: "0 < k" using dd(3) by (simp add: k_def)
  have fd: "format_digits (s, e) =
     (if k \<le> n \<and> n \<le> 21 then ds @ zeros (nat (n - k))
      else if 0 < n \<and> n \<le> 21 then take (nat n) ds @ ''.'' @ drop (nat n) ds
      else if - 6 < n \<and> n \<le> 0 then ''0.'' @ zeros (nat (- n)) @ ds
      else (if k = 1 then ds else take 1 ds @ ''.'' @ drop 1 ds) @ ''e''
        @ (if 0 \<le> n - 1 then ''+'' else ''-'') @ decimal (nat \<bar>n - 1\<bar>))"
    by (simp add: format_digits_def st Let_def ds_def k_def n_def)
  consider (int) "k \<le> n" "n \<le> 21" | (point) "n < k" "0 < n" "n \<le> 21"
    | (small) "- 6 < n" "n \<le> 0" | (expo) "\<not> (k \<le> n \<and> n \<le> 21)" "\<not> (0 < n \<and> n \<le> 21)" "\<not> (- 6 < n \<and> n \<le> 0)"
    by linarith
  then have "plain_literal (format_digits (s, e)) (of_nat s' * 10 powi e')"
  proof cases
    case int
    then have f: "format_digits (s, e) = ds @ zeros (nat (n - k))" by (simp add: fd)
    have e': "(10::rat) powi e' = 10 ^ nat (n - k)" using int by (simp add: n_def power_int_def)
    have ad: "all_digits (ds @ zeros (nat (n - k)))" using dd by (simp add: all_digits_def)
    have "StrUnsignedDecimalLiteral ((ds @ zeros (nat (n - k))) @ expo_text NoExp) =
      Some (of_nat (digits_val (ds @ zeros (nat (n - k)))) * 10 powi (expo_val NoExp))"
      using ad by (intro parse_int_exp) simp_all
    then have "StrUnsignedDecimalLiteral ((ds @ zeros (nat (n - k))) @ []) = Some (of_nat s' * 10 powi e')"
      by (simp add: digits_val_append dd(4) e')
    then have "plain_literal ((ds @ zeros (nat (n - k))) @ []) (of_nat s' * 10 powi e')"
      using ad by (intro plain_literalI) (simp_all add: all_digits_last del: append_assoc append_Nil2)
    then show ?thesis by (simp add: f)
  next
    case point
    then have f: "format_digits (s, e) = take (nat n) ds @ CHR ''.'' # drop (nat n) ds" by (simp add: fd)
    have nk: "nat n < length ds" "0 < nat n" using point by (simp_all add: k_def)
    have 1: "all_digits (take (nat n) ds)"
      using dd(2) nk by (auto simp: all_digits_def list_all_iff dest: in_set_takeD)
    have 2: "all_digits (drop (nat n) ds)"
      using dd(2) nk by (auto simp: all_digits_def list_all_iff dest: in_set_dropD)
    define j where "j = nat (k - n)"
    have len: "length ds - nat n = j" using nk by (simp add: k_def j_def)
    have e': "e' = - int j" using point by (simp add: n_def j_def)
    from plain_literal_frac[OF 1 2]
    have "plain_literal (format_digits (s, e)) (of_nat s' / 10 ^ j)"
      by (simp add: f dd(4) len)
    also have "rat_of_nat s' / 10 ^ j = of_nat s' * 10 powi e'"
      unfolding e' by (rule div_pow10)
    finally show ?thesis .
  next
    case small
    then have f: "format_digits (s, e) = ''0'' @ CHR ''.'' # (zeros (nat (- n)) @ ds)"
      using kpos by (simp add: fd)
    have 1: "all_digits ''0''" by (simp add: all_digits_def)
    have 2: "all_digits (zeros (nat (- n)) @ ds)" using dd by (simp add: all_digits_def)
    define j where "j = nat (k - n)"
    have len: "nat (- n) + length ds = j" using small kpos by (simp add: k_def j_def)
    have e': "e' = - int j" using small kpos by (simp add: n_def j_def)
    have dv: "digits_val (CHR ''0'' # zeros (nat (- n)) @ ds) = s'"
      using digits_val_append[of "''0''" "zeros (nat (- n)) @ ds"] by (simp add: dd(4))
    from plain_literal_frac[OF 1 2]
    have "plain_literal (format_digits (s, e)) (of_nat s' / 10 ^ j)"
      by (simp add: f len dv)
    also have "rat_of_nat s' / 10 ^ j = of_nat s' * 10 powi e'"
      unfolding e' by (rule div_pow10)
    finally show ?thesis .
  next
    case expo
    define x where "x = Exp (\<not> 0 \<le> n - 1) (decimal (nat \<bar>n - 1\<bar>))"
    have xok: "expo_ok x" by (simp add: x_def)
    have xv: "expo_val x = n - 1" by (simp add: x_def)
    have xt: "expo_text x = ''e'' @ (if 0 \<le> n - 1 then ''+'' else ''-'') @ decimal (nat \<bar>n - 1\<bar>)"
      by (simp add: x_def)
    have f: "format_digits (s, e) = (if k = 1 then ds else take 1 ds @ ''.'' @ drop 1 ds) @ expo_text x"
      unfolding fd xt by (simp only: expo if_False)
    have lastx: "is_digit (last (u @ expo_text x))" for u
      using all_digits_last[of "decimal (nat \<bar>n - 1\<bar>)"] decimal_nonempty[of "nat \<bar>n - 1\<bar>"]
      by (simp add: x_def)
    have hdx: "hd (expo_text x) = CHR ''e''" "expo_text x \<noteq> []" by (simp_all add: x_def)
    show ?thesis
    proof (cases "k = 1")
      case True
      then have f1: "format_digits (s, e) = ds @ expo_text x" by (simp add: f)
      have "StrUnsignedDecimalLiteral (ds @ expo_text x) = Some (of_nat (digits_val ds) * 10 powi (expo_val x))"
        using dd(1) xok by (rule parse_int_exp)
      then have "StrUnsignedDecimalLiteral (ds @ expo_text x) = Some (of_nat s' * 10 powi e')"
        using True by (simp add: dd(4) xv n_def)
      then show ?thesis unfolding f1
        using dd(1) hdx lastx by (intro plain_literalI) simp_all
    next
      case False
      then have k2: "1 < length ds" using kpos unfolding k_def by linarith
      have f2: "format_digits (s, e) = take 1 ds @ (CHR ''.'' # drop 1 ds @ expo_text x)"
        using False by (simp add: f)
      have 1: "all_digits (take 1 ds)"
        using dd(2,3) by (auto simp: all_digits_def list_all_iff dest: in_set_takeD)
      have 2: "list_all is_digit (drop 1 ds)"
        using dd(2) by (auto simp: list_all_iff dest: in_set_dropD)
      have len: "int (length (drop 1 ds)) = k - 1" using k2 by (simp add: k_def)
      have "StrUnsignedDecimalLiteral (take 1 ds @ CHR ''.'' # drop 1 ds @ expo_text x) =
        Some (of_nat (digits_val (take 1 ds @ drop 1 ds)) * 10 powi (expo_val x - int (length (drop 1 ds))))"
        using 1 2 xok by (rule parse_frac_exp)
      then have "StrUnsignedDecimalLiteral (take 1 ds @ (CHR ''.'' # drop 1 ds @ expo_text x)) =
        Some (of_nat s' * 10 powi e')"
        unfolding len by (simp add: dd(4) xv n_def)
      moreover have "is_digit (last (take 1 ds @ (CHR ''.'' # drop 1 ds @ expo_text x)))"
        using lastx[of "take 1 ds @ CHR ''.'' # drop 1 ds"] by simp
      ultimately show ?thesis unfolding f2
        using 1 by (intro plain_literalI) simp_all
    qed
  qed
  then show ?thesis by (simp add: val)
qed

lemma candidates_ok:
  "(c, e) \<in> set (candidates x k) \<Longrightarrow> to_double (of_nat c * 10 powi e) = Finite x"
  unfolding candidates_def Let_def by (auto split: if_splits)

lemma five_two_pow: "rat_of_nat (5 ^ k) * 10 powi (- int k) = 2 powi (- int k)"
proof -
  have "(10::rat) ^ k = 2 ^ k * 5 ^ k" by (simp flip: power_mult_distrib)
  then show ?thesis by (simp add: power_int_minus field_simps)
qed

lemma exact_digits_value:
  assumes "0 < x" "to_double x = Finite x"
  shows "rat_of_nat (fst (exact_digits x)) * 10 powi (snd (exact_digits x)) = x"
proof -
  define p where "p = ulp_exp x"
  define m where "m = rne (x / 2 powi p)"
  have x: "x = of_int m * 2 powi p"
    using assms by (auto simp: to_double_pos Let_def p_def m_def split: if_splits)
  have m0: "0 \<le> m" unfolding m_def using assms(1) by (intro rne_nonneg) simp
  show ?thesis
  proof (cases "0 \<le> p")
    case True
    then have "exact_digits x = (nat m * 2 ^ nat p, 0)"
      by (simp add: exact_digits_def Let_def p_def m_def)
    then show ?thesis using True m0 by (simp add: two_powi_nat) (simp add: x two_powi_nat)
  next
    case False
    define k where "k = nat (- p)"
    have p: "p = - int k" using False by (simp add: k_def)
    have "exact_digits x = (nat m * 5 ^ k, p)"
      using False by (simp add: exact_digits_def Let_def p_def m_def k_def)
    then have "rat_of_nat (fst (exact_digits x)) * 10 powi (snd (exact_digits x))
        = of_int m * (rat_of_nat (5 ^ k) * 10 powi (- int k))"
      using m0 by (simp add: p)
    also have "\<dots> = of_int m * 2 powi p" unfolding five_two_pow by (simp add: p)
    finally show ?thesis by (simp add: x)
  qed
qed

lemma shortest_digits_value:
  assumes "0 < x" "to_double x = Finite x"
  shows "to_double (of_nat (fst (shortest_digits x)) * 10 powi (snd (shortest_digits x))) = Finite x"
proof (cases "List.find (\<lambda>k. candidates x k \<noteq> []) [1 ..< 18]")
  case None
  then have "shortest_digits x = exact_digits x" by (simp add: shortest_digits_def Let_def)
  then show ?thesis using exact_digits_value[OF assms] assms(2) by simp
next
  case (Some k)
  then have ne: "candidates x k \<noteq> []" by (auto simp: find_Some_iff)
  have sd: "shortest_digits x = hd (candidates x k)" using Some by (simp add: shortest_digits_def Let_def)
  obtain c e where ce: "hd (candidates x k) = (c, e)" by (cases "hd (candidates x k)")
  then have "(c, e) \<in> set (candidates x k)" using ne by (metis hd_in_set)
  then show ?thesis using candidates_ok by (simp add: sd ce)
qed

lemma num_toString_literal:
  assumes "0 < x" "to_double x = Finite x"
  shows "plain_literal (format_digits (shortest_digits x))
           (of_nat (fst (shortest_digits x)) * 10 powi (snd (shortest_digits x)))"
  using format_digits_literal[of "fst (shortest_digits x)" "snd (shortest_digits x)"] by simp

lemma StringToNumber_names:
  "StringToNumber ''NaN'' = NaN" "StringToNumber ''Infinity'' = Infinity"
  "StringToNumber ''-Infinity'' = NegInfinity" "StringToNumber ''0'' = Finite 0"
  by code_simp+

text \<open>A Number printed by \<open>toString\<close> is read back by \<open>Number\<close> as itself.\<close>

lemma Number_toString:
  assumes "is_Number y"
  shows "StringToNumber (num_toString y) = y"
proof (cases y)
  case NaN
  then show ?thesis by (simp add: StringToNumber_names)
next
  case Infinity
  then show ?thesis by (simp add: StringToNumber_names)
next
  case NegInfinity
  then show ?thesis by (simp add: StringToNumber_names)
next
  case (Finite x)
  then have d: "to_double x = Finite x" using assms by (simp add: is_Number_def)
  consider "x = 0" | "0 < x" | "x < 0" by linarith
  then show ?thesis
  proof cases
    case 1
    show ?thesis using 1 Finite by (simp add: StringToNumber_names)
  next
    case 2
    from plain_literal_Number[OF num_toString_literal[OF 2 d]] shortest_digits_value[OF 2 d]
    show ?thesis using 2 Finite by simp
  next
    case 3
    then have pos: "0 < - x" by simp
    have d': "to_double (- x) = Finite (- x)" using d by (simp add: to_double_minus)
    from plain_literal_minus[OF num_toString_literal[OF pos d']] shortest_digits_value[OF pos d']
    have "StringToNumber (CHR ''-'' # format_digits (shortest_digits (- x))) = js_neg (Finite (- x))"
      by (simp add: to_double_minus)
    then show ?thesis using 3 Finite by simp
  qed
qed

lemma is_Number_to_double [simp]: "is_Number (to_double q)"
  by (cases "to_double q") (auto simp: is_Number_def dest: to_double_idem)

lemma is_Number_simps [simp]: "is_Number NaN" "is_Number Infinity" "is_Number NegInfinity" "is_Number (Finite 0)"
  by (simp_all add: is_Number_def)

lemma is_Number_js_neg [simp]: "is_Number y \<Longrightarrow> is_Number (js_neg y)"
  by (cases y) (auto simp: is_Number_def to_double_minus)

lemma is_Number_StringToNumber [simp]: "is_Number (StringToNumber s)"
  by (auto simp: StringToNumber_def Let_def NonDecimalIntegerLiteral_def StrDecimalLiteral_def
      split: option.splits)

lemma is_Number_js_add [simp]: "is_Number (js_add a b)"
  by (cases a; cases b) simp_all

lemma is_Number_js_div [simp]: "is_Number (js_div a b)"
  by (cases a; cases b) (simp_all add: js_inf_def)

lemma is_Number_js_mul [simp]: "is_Number (js_mul a b)"
  by (cases a; cases b) (simp_all add: js_inf_def)

lemma is_Number_or_zero [simp]: "is_Number y \<Longrightarrow> is_Number (or_zero y)"
  by (simp add: or_zero_def)

lemma js_add_zero_right [simp]: "is_Number y \<Longrightarrow> js_add y (Finite 0) = y"
  by (cases y) (simp_all add: is_Number_def)

lemma js_add_zero_left [simp]: "is_Number y \<Longrightarrow> js_add (Finite 0) y = y"
  by (cases y) (simp_all add: is_Number_def)

section \<open>Properties of the ledger writer\<close>

lemma try_insert_failed:
  "backend w = a # as \<Longrightarrow> failed a = Some e \<Longrightarrow> try_insert row w = (Inl e, w\<lparr>backend := as\<rparr>)"
  by (cases a) (simp_all add: try_insert_def insert_row_def request_def)

lemma try_insert_Succeeds:
  "backend w = Succeeds # as \<Longrightarrow>
   try_insert row w = (Inr (), w\<lparr>backend := as, user_transactions := user_transactions w @ [row]\<rparr>)"
  by (simp add: try_insert_def insert_row_def request_def)

lemma try_insert_Nil:
  "backend w = [] \<Longrightarrow>
   try_insert row w = (Inr (), w\<lparr>user_transactions := user_transactions w @ [row]\<rparr>)"
  by (simp add: try_insert_def insert_row_def request_def)

lemma retry_loop_exhausted:
  assumes "backend w = a1 # a2 # a3 # rest"
    and "failed a1 = Some e1" and "failed a2 = Some e2" and "failed a3 = Some e3"
  shows "retry_loop 3 eventName user row w =
    (Inl e3, w\<lparr>backend := rest, timeouts := timeouts w @ [1000, 1000], clock := clock w + 2000\<rparr>)"
proof -
  let ?w1 = "setTimeout 1000 (w\<lparr>backend := a2 # a3 # rest\<rparr>)"
  let ?w2 = "setTimeout 1000 (?w1\<lparr>backend := a3 # rest\<rparr>)"
  have 1: "try_insert row w = (Inl e1, w\<lparr>backend := a2 # a3 # rest\<rparr>)"
    using assms by (simp add: try_insert_failed)
  have 2: "try_insert row ?w1 = (Inl e2, ?w1\<lparr>backend := a3 # rest\<rparr>)"
    using assms by (simp add: try_insert_failed setTimeout_def)
  have 3: "try_insert row ?w2 = (Inl e3, ?w2\<lparr>backend := rest\<rparr>)"
    using assms by (simp add: try_insert_failed setTimeout_def)
  have "retry_loop 3 eventName user row w = retry_loop 2 eventName user row ?w1"
    by (subst retry_loop.simps) (simp add: 1)
  also have "\<dots> = retry_loop 1 eventName user row ?w2"
    by (subst retry_loop.simps) (simp add: 2)
  also have "\<dots> = (Inl e3, ?w2\<lparr>backend := rest\<rparr>)"
    by (subst retry_loop.simps) (simp add: 3)
  finally show ?thesis by (simp add: setTimeout_def)
qed

text \<open>
  C5. When the backend fails the insert three times in a row (by an error in the answer
  or by a rejected promise), \<open>logTransactionToSupabase\<close> makes exactly those three
  attempts (the answers after them are left for later requests), waits 1000 ms after the
  first and after the second, writes no record, logs the last error with
  \<open>console.error\<close>, and returns normally to its caller.
\<close>

theorem retry_exhaustion:
  assumes "backend w = a1 # a2 # a3 # rest"
    and "failed a1 = Some e1" and "failed a2 = Some e2" and "failed a3 = Some e3"
  shows "logTransactionToSupabase eventName user tokenDeposit amount paymentType txHash
           blockNo blockTimestamp chainName w =
     (Inr (), w\<lparr>backend := rest,
        console := console w @
          [Log [AStr ''EVENTS LOGS:'', AStr eventName, AStr user, AStr (toString tokenDeposit),
             AStr (toString amount), AStr paymentType, AStr txHash,
             ANum (Finite (of_nat blockNo)), ADate blockTimestamp, AStr chainName],
           Err [AStr (''Error logging transaction: '' @ message e3)]],
        timeouts := timeouts w @ [1000, 1000],
        clock := clock w + 2000\<rparr>)"
  unfolding logTransactionToSupabase_def Let_def
  by (subst retry_loop_exhausted [where ?a1.0 = a1 and ?a2.0 = a2 and ?a3.0 = a3 and rest = rest
        and ?e1.0 = e1 and ?e2.0 = e2 and ?e3.0 = e3])
    (use assms in \<open>simp_all add: console_log_def console_error_def\<close>)

theorem retry_exhaustion_witness:
  "logTransactionToSupabase ''claimHistory'' ''0xAb'' (JStr ''0'') (JStr ''1.000000'') ''claim''
      ''0xfeed'' 7 (Finite 1000) ''ETH''
      (start\<lparr>backend := [Fails (Error ''timeout''), Rejects (Error ''fetch failed''),
         Fails (Error ''bad gateway''), Succeeds]\<rparr>) =
   (Inr (), start\<lparr>backend := [Succeeds],
      console := [Log [AStr ''EVENTS LOGS:'', AStr ''claimHistory'', AStr ''0xAb'', AStr ''0'',
           AStr ''1.000000'', AStr ''claim'', AStr ''0xfeed'', ANum (Finite 7), ADate (Finite 1000),
           AStr ''ETH''],
         Err [AStr ''Error logging transaction: bad gateway'']],
      timeouts := [1000, 1000], clock := 2000\<rparr>)"
  using retry_exhaustion [of "start\<lparr>backend := [Fails (Error ''timeout''),
         Rejects (Error ''fetch failed''), Fails (Error ''bad gateway''), Succeeds]\<rparr>"
      "Fails (Error ''timeout'')" "Rejects (Error ''fetch failed'')" "Fails (Error ''bad gateway'')"
      "[Succeeds]" "Error ''timeout''" "Error ''fetch failed''" "Error ''bad gateway''"
      "''claimHistory''" "''0xAb''" "JStr ''0''" "JStr ''1.000000''" "''claim''" "''0xfeed''" 7
      "Finite 1000" "''ETH''"]
  by (simp add: start_def)


end
